theory Spec2Isabelle
  imports Main "HOL-Library.Signed_Division"
begin

section \<open>The type registry of TypeRepresentation/Types.h\<close>

text \<open>
  A shallow embedding of \<^verbatim>\<open>Types::TypeManager\<close>. The C++ \<^verbatim>\<open>int\<close> has 32 bits. Its
  values are the integers from \<open>INT_MIN\<close> to \<open>INT_MAX\<close>, held in \<^typ>\<open>int\<close>, and every
  \<^verbatim>\<open>+\<close>, \<^verbatim>\<open>-\<close> and \<^verbatim>\<open>*\<close> that the source computes on \<^verbatim>\<open>int\<close> is followed by
  \<open>wrap\<close>, the value that the two's complement machine instruction leaves. The
  operators \<^verbatim>\<open>/\<close> and \<^verbatim>\<open>%\<close> of C++ truncate towards zero and are \<open>sdiv\<close> and
  \<open>smod\<close>. The remainder \<^verbatim>\<open>a % b\<close> has no value when \<^verbatim>\<open>b\<close> is 0 and when \<^verbatim>\<open>a\<close> is
  \<open>INT_MIN\<close> and \<^verbatim>\<open>b\<close> is -1 (the division traps): it is \<open>rem\<close>, with the result
  \<open>None\<close> there, and \<open>None\<close> is the result of every function that reaches it.
  The \<^verbatim>\<open>int\<close> arguments of the member functions and the \<^verbatim>\<open>int\<close> fields of the
  objects given to them are values of this range.
\<close>

subsection \<open>The arithmetic of int\<close>

definition INT_MIN :: int where "INT_MIN = - 2147483648"
definition INT_MAX :: int where "INT_MAX = 2147483647"

text \<open>The values of a C++ \<^verbatim>\<open>int\<close>.\<close>

definition int32 :: "int \<Rightarrow> bool" where
  "int32 x = (INT_MIN \<le> x \<and> x \<le> INT_MAX)"

text \<open>The 32-bit two's complement value of an integer: the result of an operation that overflows.\<close>

definition wrap :: "int \<Rightarrow> int" where
  "wrap x = (x + 2147483648) mod 4294967296 - 2147483648"

text \<open>\<^verbatim>\<open>a % b\<close>\<close>

definition rem :: "int \<Rightarrow> int \<Rightarrow> int option" where
  "rem a b = (if b = 0 \<or> (a = INT_MIN \<and> b = - 1) then None else Some (a smod b))"

subsection \<open>Data\<close>

datatype Primitive =
  Int8 | Uint8 | Int16 | Uint16 | Int32 | Uint32 | Int64 | Uint64
  | Dsint | Duint | Pointer | Float | Double

text \<open>
  The three structs each have a field \<^verbatim>\<open>name\<close>, and \<^verbatim>\<open>Member\<close> has a field
  \<^verbatim>\<open>type\<close>; the fields are \<open>t_name\<close>, \<open>m_name\<close>, \<open>s_name\<close> and \<open>m_type\<close> here.
\<close>

record Type =
  t_name :: string
  primitive :: Primitive
  bitsize :: int
  pointto :: string

record Member =
  m_name :: string
  m_type :: string
  offset :: int
  arrsize :: int

record StructUnion =
  isunion :: bool
  alignment :: int
  s_name :: string
  members :: "Member list"

text \<open>
  The private state of a \<^verbatim>\<open>TypeManager\<close>. Each \<^verbatim>\<open>std::unordered_map\<close> is a
  partial map; no code of the class iterates over one.
\<close>

record TypeManager =
  primitives :: "string \<rightharpoonup> Primitive"
  primitivesizes :: "Primitive \<rightharpoonup> int"
  types :: "string \<rightharpoonup> Type"
  structs :: "string \<rightharpoonup> StructUnion"
  laststruct :: string

subsection \<open>Operations of the containers\<close>

text \<open>\<^verbatim>\<open>m.insert({k, v})\<close> stores nothing when the key is present.\<close>

definition map_insert :: "('k \<rightharpoonup> 'v) \<Rightarrow> 'k \<Rightarrow> 'v \<Rightarrow> ('k \<rightharpoonup> 'v)" where
  "map_insert m k v = (case m k of None \<Rightarrow> m(k \<mapsto> v) | Some w \<Rightarrow> m)"

text \<open>
  \<^verbatim>\<open>primitivesizes[k]\<close> as a value: the stored width, and 0 for a kind with no entry
  (\<^verbatim>\<open>operator[]\<close> value-initialises the entry it creates).
\<close>

definition primsize :: "TypeManager \<Rightarrow> Primitive \<Rightarrow> int" where
  "primsize st k = (case primitivesizes st k of None \<Rightarrow> 0 | Some w \<Rightarrow> w)"

text \<open>\<^verbatim>\<open>primitivesizes[k]\<close> as an effect: a kind with no entry gets the entry 0.\<close>

definition touch_primsize :: "TypeManager \<Rightarrow> Primitive \<Rightarrow> TypeManager" where
  "touch_primsize st k =
     (case primitivesizes st k of
        None \<Rightarrow> st\<lparr>primitivesizes := (primitivesizes st)(k \<mapsto> 0)\<rparr>
      | Some w \<Rightarrow> st)"

definition mapContains :: "('k \<rightharpoonup> 'v) \<Rightarrow> 'k \<Rightarrow> bool" where
  "mapContains m k = (m k \<noteq> None)"

definition isDefined :: "TypeManager \<Rightarrow> string \<Rightarrow> bool" where
  "isDefined st ident =
     (mapContains (primitives st) ident \<or> mapContains (types st) ident
      \<or> mapContains (structs st) ident)"

subsection \<open>The constructor and setupPrimitives\<close>

text \<open>
  The widths of the target: \<^verbatim>\<open>sizeof(char)\<close> is 1 by the standard; \<^verbatim>\<open>short\<close>,
  \<^verbatim>\<open>int\<close>, \<^verbatim>\<open>long long\<close>, \<^verbatim>\<open>float\<close> and \<^verbatim>\<open>double\<close> have the sizes of the
  32-bit and 64-bit x86 targets. \<^verbatim>\<open>sizeof(void*)\<close> differs between the two targets and
  is the parameter \<open>ptr\<close> of the constructor and of the default \<^verbatim>\<open>StructUnion\<close>.
\<close>

definition sizeof_char :: int where "sizeof_char = 1"
definition sizeof_short :: int where "sizeof_short = 2"
definition sizeof_int :: int where "sizeof_int = 4"
definition sizeof_long_long :: int where "sizeof_long_long = 8"
definition sizeof_float :: int where "sizeof_float = 4"
definition sizeof_double :: int where "sizeof_double = 8"

text \<open>
  The lambda \<^verbatim>\<open>p\<close> of \<^verbatim>\<open>setupPrimitives\<close>: the loop over the characters of \<open>n\<close>
  with the accumulator \<open>a\<close>, then the last spelling and the width of the kind.
\<close>

fun setupPrimitives_p_loop ::
  "(string \<rightharpoonup> Primitive) \<Rightarrow> Primitive \<Rightarrow> string \<Rightarrow> string \<Rightarrow> (string \<rightharpoonup> Primitive) \<times> string"
where
  "setupPrimitives_p_loop prims k a [] = (prims, a)"
| "setupPrimitives_p_loop prims k a (ch # n) =
     (if ch = CHR '','' then
        setupPrimitives_p_loop (if a \<noteq> [] then map_insert prims a k else prims) k [] n
      else setupPrimitives_p_loop prims k (a @ [ch]) n)"

definition setupPrimitives_p :: "string \<Rightarrow> Primitive \<Rightarrow> int \<Rightarrow> TypeManager \<Rightarrow> TypeManager" where
  "setupPrimitives_p n k bits st =
     (case setupPrimitives_p_loop (primitives st) k [] n of
        (prims, a) \<Rightarrow>
          st\<lparr>primitives := (if a \<noteq> [] then map_insert prims a k else prims),
             primitivesizes := (primitivesizes st)(k \<mapsto> bits)\<rparr>)"

text \<open>
  The thirteen calls of \<^verbatim>\<open>p\<close>, in the order of the source. The unsigned types have the
  size of their signed counterparts. The fourth call registers the \<open>uint16\<close> spellings
  and their width under \<open>Int16\<close>, as line 209 does.
\<close>

definition setupPrimitives :: "int \<Rightarrow> TypeManager \<Rightarrow> TypeManager" where
  "setupPrimitives ptr st =
     fold (\<lambda>(n, k, bits). setupPrimitives_p n k bits)
       [(''int8_t,int8,char,byte,bool,signed char'', Int8, sizeof_char * 8),
        (''uint8_t,uint8,uchar,unsigned char,ubyte'', Uint8, sizeof_char * 8),
        (''int16_t,int16,wchar_t,char16_t,short'', Int16, sizeof_short * 8),
        (''uint16_t,uint16,ushort,unsigned short'', Int16, sizeof_short * 8),
        (''int32_t,int32,int,long'', Int32, sizeof_int * 8),
        (''uint32_t,uint32,unsigned int,unsigned long'', Uint32, sizeof_int * 8),
        (''int64_t,int64,long long'', Int64, sizeof_long_long * 8),
        (''uint64_t,uint64,unsigned long long'', Uint64, sizeof_long_long * 8),
        (''dsint'', Dsint, ptr * 8),
        (''duint,size_t'', Duint, ptr * 8),
        (''ptr,void*'', Pointer, ptr * 8),
        (''float'', Float, sizeof_float * 8),
        (''double'', Double, sizeof_double * 8)]
       st"

text \<open>The constructor: empty containers, then \<^verbatim>\<open>setupPrimitives\<close>.\<close>

definition TypeManager_new :: "int \<Rightarrow> TypeManager" where
  "TypeManager_new ptr =
     setupPrimitives ptr
       \<lparr>primitives = Map.empty, primitivesizes = Map.empty, types = Map.empty,
        structs = Map.empty, laststruct = []\<rparr>"

subsection \<open>getSizeof and Sizeof\<close>

text \<open>
  Lines 274 to 281 of \<^verbatim>\<open>getSizeof\<close>: the size rounded up to the alignment, and the
  padding stored through \<^verbatim>\<open>alignment\<close> (0 from line 237 when nothing is added).
  \<^verbatim>\<open>size % s.alignment\<close> has no value when \<^verbatim>\<open>s.alignment\<close> is 0, and when \<^verbatim>\<open>size\<close>
  is \<open>INT_MIN\<close> and \<^verbatim>\<open>s.alignment\<close> is -1: \<open>None\<close>.
\<close>

definition alignSize :: "StructUnion \<Rightarrow> int \<Rightarrow> (int \<times> int) option" where
  "alignSize s cursize =
     (case rem cursize (alignment s) of
        None \<Rightarrow> None
      | Some md \<Rightarrow>
          if md \<noteq> 0
          then Some (wrap (cursize + wrap (alignment s - md)), wrap (alignment s - md))
          else Some (cursize, 0))"

text \<open>\<^verbatim>\<open>member.arrsize ? member.arrsize : 1\<close>\<close>

definition arrcount :: "Member \<Rightarrow> int" where
  "arrcount member = (if arrsize member \<noteq> 0 then arrsize member else 1)"

text \<open>
  \<open>getSizeof st type depth\<close> is the pair of the value returned and the value stored
  through the pointer \<^verbatim>\<open>alignment\<close> when it is not null. At \<^verbatim>\<open>depth >= 100\<close> the
  source returns before it stores anything; the only call with a pointer is at depth 0
  (in \<^verbatim>\<open>AddMember\<close>), and the pair is \<open>(0, 0)\<close> here. \<open>unionSize\<close> is the loop over
  the members of a union, from the member list still to visit and the running
  \<^verbatim>\<open>size\<close> (\<open>cursize\<close>), followed by the rest of \<^verbatim>\<open>getSizeof\<close>; its \<^verbatim>\<open>return 0\<close> leaves
  \<^verbatim>\<open>getSizeof\<close>. \<^verbatim>\<open>depth + 1\<close> is computed below 100 only and does not overflow;
  \<^verbatim>\<open>bitsize % 8\<close> has a value for every \<^verbatim>\<open>bitsize\<close>.

  The width of a primitive is read with \<^verbatim>\<open>primitivesizes[foundP->second]\<close>. The kind
  comes from \<open>primitives\<close>, and every kind stored there has an entry in
  \<open>primitivesizes\<close> in every state the class can be in (\<open>reachable_kinds_sized\<close>
  below), so that this read creates no entry and \<^verbatim>\<open>getSizeof\<close> leaves the state as
  it is.
\<close>

function getSizeof :: "TypeManager \<Rightarrow> string \<Rightarrow> int \<Rightarrow> (int \<times> int) option"
  and unionSize :: "TypeManager \<Rightarrow> StructUnion \<Rightarrow> Member list \<Rightarrow> int \<Rightarrow> int \<Rightarrow> (int \<times> int) option"
where
  "getSizeof st type depth =
     (if depth \<ge> 100 then Some (0, 0)
      else case primitives st type of
        Some k \<Rightarrow> Some (primsize st k sdiv 8, 0)
      | None \<Rightarrow>
         (case types st type of
            Some t \<Rightarrow>
              (let md = bitsize t smod 8;
                   bits = (if md \<noteq> 0 then wrap (bitsize t + (8 - md)) else bitsize t)
               in Some (bits sdiv 8, 0))
          | None \<Rightarrow>
             (case structs st type of
                None \<Rightarrow> Some (0, 0)
              | Some s \<Rightarrow>
                  if members s = [] then Some (0, 0)
                  else if isunion s then unionSize st s (members s) depth 0
                  else
                    (case getSizeof st (m_type (last (members s))) (depth + 1) of
                       None \<Rightarrow> None
                     | Some (sz, pad) \<Rightarrow>
                         (let lastsize = wrap (sz * arrcount (last (members s)))
                          in if lastsize = 0 then Some (0, 0)
                             else alignSize s (wrap (offset (last (members s)) + lastsize)))))))"
| "unionSize st s [] depth cursize = alignSize s cursize"
| "unionSize st s (member # rest) depth cursize =
     (case getSizeof st (m_type member) (depth + 1) of
        None \<Rightarrow> None
      | Some (sz, pad) \<Rightarrow>
          (let membersize = wrap (sz * arrcount member)
           in if membersize = 0 then Some (0, 0)
              else unionSize st s rest depth (if membersize > cursize then membersize else cursize)))"
  by pat_completeness auto
termination
  by (relation "measures
        [\<lambda>x. case x of Inl (st, ty, d) \<Rightarrow> 2 * nat (100 - d)
                       | Inr (st, s, ms, d, sz) \<Rightarrow> 2 * nat (99 - d) + 1,
         \<lambda>x. case x of Inl (st, ty, d) \<Rightarrow> 0
                       | Inr (st, s, ms, d, sz) \<Rightarrow> length ms]")
     auto

declare getSizeof.simps [simp del]

definition Sizeof :: "TypeManager \<Rightarrow> string \<Rightarrow> int option" where
  "Sizeof st type = map_option fst (getSizeof st type 0)"

subsection \<open>Defining types\<close>

text \<open>
  The mutating member functions return the \<^verbatim>\<open>bool\<close> of the source and the state
  after the call. The parameters \<^verbatim>\<open>primitive\<close>, \<^verbatim>\<open>bitsize\<close>, \<^verbatim>\<open>pointto\<close>,
  \<^verbatim>\<open>alignment\<close>, \<^verbatim>\<open>offset\<close> and \<^verbatim>\<open>arrsize\<close> are \<open>prim\<close>, \<open>bits\<close>, \<open>pto\<close>,
  \<open>align\<close>, \<open>offs\<close> and \<open>arr\<close>; a default argument is passed by the caller.
\<close>

text \<open>\<^verbatim>\<open>bool AddType(const Type & t)\<close>\<close>

definition AddType_t :: "TypeManager \<Rightarrow> Type \<Rightarrow> bool \<times> TypeManager" where
  "AddType_t st t =
     (if isDefined st (t_name t) then (False, st)
      else (True, st\<lparr>types := map_insert (types st) (t_name t) t\<rparr>))"

text \<open>
  \<^verbatim>\<open>bool AddType(const std::string & name, Primitive primitive, int bitsize = 0,
  const std::string & pointto = "")\<close>. Line 72 reads \<^verbatim>\<open>primitivesizes[primitive]\<close>
  for any kind the caller passes, and creates the entry of a kind that has none.
\<close>

definition AddType :: "TypeManager \<Rightarrow> string \<Rightarrow> Primitive \<Rightarrow> int \<Rightarrow> string \<Rightarrow> bool \<times> TypeManager" where
  "AddType st name prim bits pto =
     (if isDefined st name then (False, st)
      else
        (let primsz = primsize st prim;
             st1 = touch_primsize st prim
         in if bits \<le> 0 then
              AddType_t st1 \<lparr>t_name = name, primitive = prim, bitsize = primsz, pointto = pto\<rparr>
            else if bits > primsz then (False, st1)
            else
              AddType_t st1 \<lparr>t_name = name, primitive = prim, bitsize = bits, pointto = pto\<rparr>))"

text \<open>\<^verbatim>\<open>bool AddType(const std::string & name, const std::string & primitive)\<close>\<close>

definition AddType_spelling :: "TypeManager \<Rightarrow> string \<Rightarrow> string \<Rightarrow> bool \<times> TypeManager" where
  "AddType_spelling st name spelling =
     (case primitives st spelling of
        None \<Rightarrow> (False, st)
      | Some k \<Rightarrow> AddType st name k 0 [])"

subsection \<open>Defining structs and unions\<close>

text \<open>A default-initialised \<^verbatim>\<open>StructUnion\<close>; its alignment is \<^verbatim>\<open>sizeof(void*)\<close>.\<close>

definition StructUnion_default :: "int \<Rightarrow> StructUnion" where
  "StructUnion_default ptr = \<lparr>isunion = False, alignment = ptr, s_name = [], members = []\<rparr>"

text \<open>\<^verbatim>\<open>bool AddStruct(const StructUnion & s)\<close>: \<^verbatim>\<open>laststruct\<close> is assigned first.\<close>

definition AddStruct_s :: "TypeManager \<Rightarrow> StructUnion \<Rightarrow> bool \<times> TypeManager" where
  "AddStruct_s st s =
     (let st1 = st\<lparr>laststruct := s_name s\<rparr>
      in if isDefined st1 (s_name s) then (False, st1)
         else (True, st1\<lparr>structs := map_insert (structs st1) (s_name s) s\<rparr>))"

text \<open>\<^verbatim>\<open>bool AddStruct(const std::string & name, int alignment = 0)\<close>\<close>

definition AddStruct :: "int \<Rightarrow> TypeManager \<Rightarrow> string \<Rightarrow> int \<Rightarrow> bool \<times> TypeManager" where
  "AddStruct ptr st name align =
     (let s = (StructUnion_default ptr)\<lparr>s_name := name\<rparr>;
          s = (if align > 0 then s\<lparr>alignment := align\<rparr> else s)
      in AddStruct_s st s)"

text \<open>\<^verbatim>\<open>bool AddUnion(const StructUnion & u)\<close>\<close>

definition AddUnion_u :: "TypeManager \<Rightarrow> StructUnion \<Rightarrow> bool \<times> TypeManager" where
  "AddUnion_u st u =
     (let st1 = st\<lparr>laststruct := s_name u\<rparr>
      in if isDefined st1 (s_name u) then (False, st1)
         else (True, st1\<lparr>structs := map_insert (structs st1) (s_name u) u\<rparr>))"

text \<open>\<^verbatim>\<open>bool AddUnion(const std::string & name, int alignment = 0)\<close>\<close>

definition AddUnion :: "int \<Rightarrow> TypeManager \<Rightarrow> string \<Rightarrow> int \<Rightarrow> bool \<times> TypeManager" where
  "AddUnion ptr st name align =
     (let u = (StructUnion_default ptr)\<lparr>isunion := True, s_name := name\<rparr>;
          u = (if align > 0 then u\<lparr>alignment := align\<rparr> else u)
      in AddUnion_u st u)"

subsection \<open>Adding members\<close>

text \<open>\<^verbatim>\<open>s.members.push_back(m)\<close> on the aggregate stored under \<open>parent\<close>.\<close>

definition push_member :: "TypeManager \<Rightarrow> string \<Rightarrow> StructUnion \<Rightarrow> Member \<Rightarrow> TypeManager" where
  "push_member st parent s m =
     st\<lparr>structs := (structs st)(parent \<mapsto> s\<lparr>members := members s @ [m]\<rparr>)\<rparr>"

text \<open>
  \<^verbatim>\<open>bool AddMember(const std::string & parent, const std::string & name,
  const std::string & type, int offset = -1, int arrsize = 0)\<close>. The result is \<open>None\<close>
  when one of its two size computations reaches a remainder that has no value.
\<close>

definition AddMember ::
  "TypeManager \<Rightarrow> string \<Rightarrow> string \<Rightarrow> string \<Rightarrow> int \<Rightarrow> int \<Rightarrow> (bool \<times> TypeManager) option"
where
  "AddMember st parent name type offs arr =
     (case structs st parent of
        None \<Rightarrow> Some (False, st)
      | Some s \<Rightarrow>
          if arr < 0 then Some (False, st)
          else if isDefined st type then
            (if name \<in> set (map m_name (members s)) then Some (False, st)
             else if offs < 0 then
               (case getSizeof st parent 0 of
                  None \<Rightarrow> None
                | Some (sz, pad) \<Rightarrow>
                    if members s \<noteq> [] \<and> sz = 0 then Some (False, st)
                    else
                      (case Sizeof st type of
                         None \<Rightarrow> None
                       | Some typesize \<Rightarrow>
                           Some (True, push_member st parent s
                             \<lparr>m_name = name, m_type = type,
                              offset = (if pad \<noteq> 0 \<and> typesize \<le> pad then wrap (sz - pad) else sz),
                              arrsize = arr\<rparr>)))
             else
               Some (True, push_member st parent s
                 \<lparr>m_name = name, m_type = type, offset = offs, arrsize = arr\<rparr>))
          else Some (False, st))"

text \<open>
  \<^verbatim>\<open>bool AppendMember(const std::string & name, const std::string & type,
  int offset = -1, int arrsize = 0)\<close>
\<close>

definition AppendMember ::
  "TypeManager \<Rightarrow> string \<Rightarrow> string \<Rightarrow> int \<Rightarrow> int \<Rightarrow> (bool \<times> TypeManager) option"
where
  "AppendMember st name type offs arr = AddMember st (laststruct st) name type offs arr"

text \<open>\<^verbatim>\<open>bool AddMember(const std::string & parent, const Member & member)\<close>\<close>

definition AddMember_m :: "TypeManager \<Rightarrow> string \<Rightarrow> Member \<Rightarrow> bool \<times> TypeManager" where
  "AddMember_m st parent member =
     (case structs st parent of
        None \<Rightarrow> (False, st)
      | Some s \<Rightarrow> (True, push_member st parent s member))"

subsection \<open>The states of a TypeManager\<close>

text \<open>
  The fields are private: a state of the class is the constructor's, on a target with
  a pointer of \<open>ptr > 0\<close> bytes, followed by calls of the public member functions that
  returned.
\<close>

inductive reachable :: "int \<Rightarrow> TypeManager \<Rightarrow> bool" for ptr :: int where
  r_new: "0 < ptr \<Longrightarrow> reachable ptr (TypeManager_new ptr)"
| r_AddType_spelling:
    "reachable ptr st \<Longrightarrow> reachable ptr (snd (AddType_spelling st name spelling))"
| r_AddType: "reachable ptr st \<Longrightarrow> reachable ptr (snd (AddType st name prim bits pto))"
| r_AddType_t: "reachable ptr st \<Longrightarrow> reachable ptr (snd (AddType_t st t))"
| r_AddStruct: "reachable ptr st \<Longrightarrow> reachable ptr (snd (AddStruct ptr st name align))"
| r_AddStruct_s: "reachable ptr st \<Longrightarrow> reachable ptr (snd (AddStruct_s st s))"
| r_AddUnion: "reachable ptr st \<Longrightarrow> reachable ptr (snd (AddUnion ptr st name align))"
| r_AddUnion_u: "reachable ptr st \<Longrightarrow> reachable ptr (snd (AddUnion_u st u))"
| r_AddMember:
    "reachable ptr st \<Longrightarrow> AddMember st parent name type offs arr = Some (ok, st')
     \<Longrightarrow> reachable ptr st'"
| r_AppendMember:
    "reachable ptr st \<Longrightarrow> AppendMember st name type offs arr = Some (ok, st')
     \<Longrightarrow> reachable ptr st'"
| r_AddMember_m: "reachable ptr st \<Longrightarrow> reachable ptr (snd (AddMember_m st parent member))"

subsection \<open>Predicates of the statements\<close>

text \<open>
  What every call keeps: the spellings, the width read for each kind, and the kinds that
  have an entry in \<open>primitivesizes\<close>.
\<close>

definition keeps_prims :: "TypeManager \<Rightarrow> TypeManager \<Rightarrow> bool" where
  "keeps_prims st st' =
     (primitives st' = primitives st \<and> (\<forall>k. primsize st' k = primsize st k)
      \<and> dom (primitivesizes st) \<subseteq> dom (primitivesizes st'))"

text \<open>
  A state in which no aggregate has the alignment 0 or -1: every remainder that a size
  computation takes has a value.
\<close>

definition aligned :: "TypeManager \<Rightarrow> bool" where
  "aligned st = (\<forall>n s. structs st n = Some s \<longrightarrow> alignment s \<noteq> 0 \<and> alignment s \<noteq> - 1)"

text \<open>\<open>x\<close> rounded up to the next multiple of \<open>a\<close>.\<close>

definition round_up :: "int \<Rightarrow> int \<Rightarrow> int" where
  "round_up a x = (if x mod a = 0 then x else x + (a - x mod a))"

text \<open>
  The natural width of a kind in bits, as the name of the kind gives it: the width of the
  C type that the kind is named after, on a target with pointers of \<open>ptr\<close> bytes.
\<close>

definition natural_width :: "int \<Rightarrow> Primitive \<Rightarrow> int" where
  "natural_width ptr k =
     (case k of
        Int8 \<Rightarrow> 8 | Uint8 \<Rightarrow> 8 | Int16 \<Rightarrow> 16 | Uint16 \<Rightarrow> 16
      | Int32 \<Rightarrow> 32 | Uint32 \<Rightarrow> 32 | Int64 \<Rightarrow> 64 | Uint64 \<Rightarrow> 64
      | Dsint \<Rightarrow> ptr * 8 | Duint \<Rightarrow> ptr * 8 | Pointer \<Rightarrow> ptr * 8
      | Float \<Rightarrow> 32 | Double \<Rightarrow> 64)"

text \<open>
  A set of struct names closed under a step of the size computation, from a struct to
  the type of its last member: the structs on a cycle of containment.
\<close>

definition struct_cycle :: "TypeManager \<Rightarrow> string set \<Rightarrow> bool" where
  "struct_cycle st C =
     (\<forall>n\<in>C. primitives st n = None \<and> types st n = None
        \<and> (\<exists>s. structs st n = Some s \<and> members s \<noteq> [] \<and> \<not> isunion s
             \<and> m_type (last (members s)) \<in> C))"

text \<open>The same with unions on the way: from a union to the type of one of its members.\<close>

definition cycle_through :: "TypeManager \<Rightarrow> string set \<Rightarrow> bool" where
  "cycle_through st C =
     (\<forall>n\<in>C. primitives st n = None \<and> types st n = None
        \<and> (\<exists>s. structs st n = Some s \<and> members s \<noteq> []
             \<and> (if isunion s then \<exists>m\<in>set (members s). m_type m \<in> C
                 else m_type (last (members s)) \<in> C)))"

text \<open>No name of an aggregate is also a primitive spelling or the name of a type.\<close>

definition names_disjoint :: "TypeManager \<Rightarrow> bool" where
  "names_disjoint st =
     (\<forall>n. structs st n \<noteq> None \<longrightarrow> primitives st n = None \<and> types st n = None)"

subsection \<open>Example states\<close>

text \<open>
  On a target with 8-byte pointers: \<^verbatim>\<open>TypeManager tm; tm.AddStruct("S", 8);\<close> gives
  \<open>ex_S0\<close>, then \<^verbatim>\<open>tm.AddMember("S", "a", "int32");\<close> gives \<open>ex_S1\<close>. From
  \<open>ex_S1\<close>, \<^verbatim>\<open>tm.AddMember("S", Member{"z", "nosuch", 4, 0});\<close> gives \<open>ex_S2\<close>, and
  \<^verbatim>\<open>tm.AddStruct("T");\<close> gives \<open>ex_T\<close>.
\<close>

definition ex_S0 :: TypeManager where
  "ex_S0 = snd (AddStruct 8 (TypeManager_new 8) ''S'' 8)"

definition ex_S1 :: TypeManager where
  "ex_S1 = snd (the (AddMember ex_S0 ''S'' ''a'' ''int32'' (-1) 0))"


definition ex_T :: TypeManager where
  "ex_T = snd (AddStruct 8 ex_S1 ''T'' 0)"

text \<open>
  A struct \<open>C\<close> with a member of its own type: \<^verbatim>\<open>tm.AddStruct("C", 8);\<close> gives
  \<open>ex_C0\<close>, \<^verbatim>\<open>tm.AddMember("C", "self", "C");\<close> gives \<open>ex_C1\<close>, and
  \<^verbatim>\<open>tm.AddMember("C", "x", "int32", 8);\<close> gives \<open>ex_C2\<close>. In \<open>ex_AB\<close> the struct
  \<open>A\<close> holds a \<open>B\<close> and the union \<open>B\<close> holds an \<open>A\<close>, both given to
  \<^verbatim>\<open>AddStruct\<close> and \<^verbatim>\<open>AddUnion\<close> as \<^verbatim>\<open>StructUnion\<close> objects.
\<close>

definition ex_C0 :: TypeManager where
  "ex_C0 = snd (AddStruct 8 (TypeManager_new 8) ''C'' 8)"

definition ex_C1 :: TypeManager where
  "ex_C1 = snd (the (AddMember ex_C0 ''C'' ''self'' ''C'' (-1) 0))"

definition ex_C2 :: TypeManager where
  "ex_C2 = snd (the (AddMember ex_C1 ''C'' ''x'' ''int32'' 8 0))"

definition ex_AB :: TypeManager where
  "ex_AB =
     snd (AddUnion_u
       (snd (AddStruct_s (TypeManager_new 8)
          \<lparr>isunion = False, alignment = 8, s_name = ''A'',
           members = [\<lparr>m_name = ''b'', m_type = ''B'', offset = 0, arrsize = 0\<rparr>]\<rparr>))
       \<lparr>isunion = True, alignment = 8, s_name = ''B'',
        members = [\<lparr>m_name = ''x'', m_type = ''int32'', offset = 0, arrsize = 0\<rparr>,
                   \<lparr>m_name = ''a'', m_type = ''A'', offset = 0, arrsize = 0\<rparr>]\<rparr>)"

text \<open>
  Unions of an int8 and an int32: \<^verbatim>\<open>tm.AddUnion("U"); tm.AddMember("U", "a", "int8");
  tm.AddMember("U", "b", "int32");\<close> with the default alignment (8) gives \<open>ex_U0\<close>,
  \<open>ex_U1\<close>, \<open>ex_U2\<close>; \<^verbatim>\<open>tm.AddUnion("V", 4); tm.AddMember("V", "b", "int32");
  tm.AddMember("V", "a", "int8");\<close> gives \<open>ex_V0\<close>, \<open>ex_V1\<close>, \<open>ex_V2\<close>.
\<close>

definition ex_U0 :: TypeManager where
  "ex_U0 = snd (AddUnion 8 (TypeManager_new 8) ''U'' 0)"

definition ex_U1 :: TypeManager where
  "ex_U1 = snd (the (AddMember ex_U0 ''U'' ''a'' ''int8'' (-1) 0))"

definition ex_U2 :: TypeManager where
  "ex_U2 = snd (the (AddMember ex_U1 ''U'' ''b'' ''int32'' (-1) 0))"

definition ex_V0 :: TypeManager where
  "ex_V0 = snd (AddUnion 8 (TypeManager_new 8) ''V'' 4)"

definition ex_V1 :: TypeManager where
  "ex_V1 = snd (the (AddMember ex_V0 ''V'' ''b'' ''int32'' (-1) 0))"

definition ex_V2 :: TypeManager where
  "ex_V2 = snd (the (AddMember ex_V1 ''V'' ''a'' ''int8'' (-1) 0))"



definition ex_W0 :: TypeManager where
  "ex_W0 = snd (AddUnion 8 (TypeManager_new 8) ''W'' 8)"

definition ex_W1 :: TypeManager where
  "ex_W1 = snd (the (AddMember ex_W0 ''W'' ''big'' ''int64'' 0 536870912))"

text \<open>
  Aggregates given to \<^verbatim>\<open>AddStruct\<close> as \<^verbatim>\<open>StructUnion\<close> objects: in \<open>ex_N\<close> the
  struct \<open>N\<close> of alignment -1, whose size before the rounding is \<open>INT_MIN\<close>; in
  \<open>ex_CZ\<close> the struct \<open>Z\<close> of alignment 0 beside the struct \<open>C\<close> of \<open>ex_C1\<close>.
\<close>

definition ex_N :: TypeManager where
  "ex_N =
     snd (AddStruct_s (TypeManager_new 8)
       \<lparr>isunion = False, alignment = - 1, s_name = ''N'',
        members = [\<lparr>m_name = ''x'', m_type = ''int32'', offset = - 2147483644, arrsize = - 1\<rparr>]\<rparr>)"

definition ex_CZ :: TypeManager where
  "ex_CZ =
     snd (AddStruct_s ex_C1
       \<lparr>isunion = False, alignment = 0, s_name = ''Z'',
        members = [\<lparr>m_name = ''x'', m_type = ''int32'', offset = 0, arrsize = 0\<rparr>]\<rparr>)"

section \<open>Properties\<close>

subsection \<open>The arithmetic of int\<close>

lemma wrap_id: "int32 x \<Longrightarrow> wrap x = x"
  by (simp add: wrap_def int32_def INT_MIN_def INT_MAX_def)

lemma wrap_0 [simp]: "wrap 0 = 0"
  by (simp add: wrap_def)

lemma int32_wrap: "int32 (wrap x)"
proof -
  have "0 \<le> (x + 2147483648) mod 4294967296" "(x + 2147483648) mod 4294967296 < 4294967296"
    by simp_all
  then show ?thesis
    unfolding wrap_def int32_def INT_MIN_def INT_MAX_def by linarith
qed

lemma rem_Some: "b \<noteq> 0 \<Longrightarrow> b \<noteq> - 1 \<Longrightarrow> rem a b = Some (a smod b)"
  by (simp add: rem_def)

lemma smod_nonneg: "0 \<le> a \<Longrightarrow> 0 < b \<Longrightarrow> a smod b = a mod b" for a b :: int
  by (simp add: signed_modulo_int_def signed_divide_int_def sgn_if minus_div_mult_eq_mod)

lemmas int_simps = wrap_def rem_def INT_MIN_def INT_MAX_def int32_def
  signed_modulo_int_def signed_divide_int_def

subsection \<open>The containers\<close>

lemma touch_primsize_fields:
  "primitives (touch_primsize st k) = primitives st"
  "types (touch_primsize st k) = types st"
  "structs (touch_primsize st k) = structs st"
  "laststruct (touch_primsize st k) = laststruct st"
  by (simp_all add: touch_primsize_def split: option.splits)

lemma primsize_touch: "primsize (touch_primsize st k) k' = primsize st k'"
  by (simp add: touch_primsize_def primsize_def split: option.splits)

lemma dom_touch: "dom (primitivesizes (touch_primsize st k)) = insert k (dom (primitivesizes st))"
  by (auto simp: touch_primsize_def split: option.splits)

lemma isDefined_touch: "isDefined (touch_primsize st k) n = isDefined st n"
  by (simp add: isDefined_def touch_primsize_fields)

lemma isDefined_laststruct: "isDefined (st\<lparr>laststruct := n\<rparr>) m = isDefined st m"
  by (simp add: isDefined_def)

lemma map_insert_fresh: "m k = None \<Longrightarrow> map_insert m k v = m(k \<mapsto> v)"
  by (simp add: map_insert_def)

lemma not_isDefined_iff:
  "(\<not> isDefined st n) = (primitives st n = None \<and> types st n = None \<and> structs st n = None)"
  by (simp add: isDefined_def mapContains_def)

subsection \<open>The state after the constructor\<close>

lemma primitives_new:
  "primitives (TypeManager_new ptr) =
     [''int8_t'' \<mapsto> Int8, ''int8'' \<mapsto> Int8, ''char'' \<mapsto> Int8, ''byte'' \<mapsto> Int8,
      ''bool'' \<mapsto> Int8, ''signed char'' \<mapsto> Int8,
      ''uint8_t'' \<mapsto> Uint8, ''uint8'' \<mapsto> Uint8, ''uchar'' \<mapsto> Uint8,
      ''unsigned char'' \<mapsto> Uint8, ''ubyte'' \<mapsto> Uint8,
      ''int16_t'' \<mapsto> Int16, ''int16'' \<mapsto> Int16, ''wchar_t'' \<mapsto> Int16,
      ''char16_t'' \<mapsto> Int16, ''short'' \<mapsto> Int16,
      ''uint16_t'' \<mapsto> Int16, ''uint16'' \<mapsto> Int16, ''ushort'' \<mapsto> Int16,
      ''unsigned short'' \<mapsto> Int16,
      ''int32_t'' \<mapsto> Int32, ''int32'' \<mapsto> Int32, ''int'' \<mapsto> Int32, ''long'' \<mapsto> Int32,
      ''uint32_t'' \<mapsto> Uint32, ''uint32'' \<mapsto> Uint32, ''unsigned int'' \<mapsto> Uint32,
      ''unsigned long'' \<mapsto> Uint32,
      ''int64_t'' \<mapsto> Int64, ''int64'' \<mapsto> Int64, ''long long'' \<mapsto> Int64,
      ''uint64_t'' \<mapsto> Uint64, ''uint64'' \<mapsto> Uint64, ''unsigned long long'' \<mapsto> Uint64,
      ''dsint'' \<mapsto> Dsint,
      ''duint'' \<mapsto> Duint, ''size_t'' \<mapsto> Duint,
      ''ptr'' \<mapsto> Pointer, ''void*'' \<mapsto> Pointer,
      ''float'' \<mapsto> Float,
      ''double'' \<mapsto> Double]"
  by (simp add: TypeManager_new_def setupPrimitives_def setupPrimitives_p_def map_insert_def)

lemma primitivesizes_new:
  "primitivesizes (TypeManager_new ptr) =
     [Int8 \<mapsto> 8, Uint8 \<mapsto> 8, Int16 \<mapsto> 16, Int32 \<mapsto> 32, Uint32 \<mapsto> 32, Int64 \<mapsto> 64,
      Uint64 \<mapsto> 64, Dsint \<mapsto> ptr * 8, Duint \<mapsto> ptr * 8, Pointer \<mapsto> ptr * 8,
      Float \<mapsto> 32, Double \<mapsto> 64]"
  by (simp add: TypeManager_new_def setupPrimitives_def setupPrimitives_p_def
      sizeof_char_def sizeof_short_def sizeof_int_def sizeof_long_long_def sizeof_float_def
      sizeof_double_def)

lemma containers_new:
  "types (TypeManager_new ptr) = Map.empty"
  "structs (TypeManager_new ptr) = Map.empty"
  "laststruct (TypeManager_new ptr) = []"
  by (simp_all add: TypeManager_new_def setupPrimitives_def setupPrimitives_p_def
      split: prod.splits)

lemma kinds_new: "primitives (TypeManager_new ptr) n = Some k \<Longrightarrow> k \<noteq> Uint16"
  by (simp add: primitives_new split: if_splits)

lemma kinds_sized_new:
  "primitives (TypeManager_new ptr) n = Some k \<Longrightarrow> k \<in> dom (primitivesizes (TypeManager_new ptr))"
  using kinds_new [of ptr n k] by (cases k) (simp_all add: primitivesizes_new)

subsection \<open>What the calls keep\<close>

lemma keeps_prims_refl: "keeps_prims st st"
  by (simp add: keeps_prims_def)

lemma keeps_prims_AddType_t: "keeps_prims st (snd (AddType_t st t))"
  by (simp add: AddType_t_def keeps_prims_def primsize_def)

lemma keeps_prims_AddType: "keeps_prims st (snd (AddType st name prim bits pto))"
  by (auto simp add: AddType_def AddType_t_def Let_def keeps_prims_def primsize_touch
      touch_primsize_fields dom_touch isDefined_touch)
     (simp_all add: primsize_def touch_primsize_def split: option.splits)

lemma keeps_prims_AddType_spelling: "keeps_prims st (snd (AddType_spelling st name spelling))"
  by (simp add: AddType_spelling_def keeps_prims_refl keeps_prims_AddType split: option.splits)

lemma keeps_prims_AddStruct_s: "keeps_prims st (snd (AddStruct_s st s))"
  by (simp add: AddStruct_s_def Let_def keeps_prims_def primsize_def)

lemma keeps_prims_AddUnion_u: "keeps_prims st (snd (AddUnion_u st s))"
  by (simp add: AddUnion_u_def Let_def keeps_prims_def primsize_def)

lemma keeps_prims_push: "keeps_prims st (push_member st parent s m)"
  by (simp add: push_member_def keeps_prims_def primsize_def)

lemma keeps_prims_AddMember:
  "AddMember st parent name type offs arr = Some (ok, st') \<Longrightarrow> keeps_prims st st'"
  by (auto simp add: AddMember_def keeps_prims_refl keeps_prims_push
      split: option.splits if_splits prod.splits)

lemma keeps_prims_AddMember_m: "keeps_prims st (snd (AddMember_m st parent m))"
  by (simp add: AddMember_m_def keeps_prims_refl keeps_prims_push split: option.splits)

lemma keeps_prims_trans: "keeps_prims a b \<Longrightarrow> keeps_prims b c \<Longrightarrow> keeps_prims a c"
proof -
  assume ab: "keeps_prims a b" and bc: "keeps_prims b c"
  have "primitives c = primitives a" using ab bc by (simp add: keeps_prims_def)
  moreover have "\<forall>k. primsize c k = primsize a k" using ab bc by (simp add: keeps_prims_def)
  moreover have "dom (primitivesizes a) \<subseteq> dom (primitivesizes c)"
    using ab bc unfolding keeps_prims_def by (blast intro: subset_trans)
  ultimately show ?thesis by (simp add: keeps_prims_def)
qed

lemma reachable_keeps: "reachable ptr st \<Longrightarrow> keeps_prims (TypeManager_new ptr) st"
proof (induction rule: reachable.induct)
  case r_new
  show ?case by (rule keeps_prims_refl)
next
  case (r_AddType_spelling st name spelling)
  from this(2) show ?case by (rule keeps_prims_trans [OF _ keeps_prims_AddType_spelling])
next
  case (r_AddType st name prim bits pto)
  from this(2) show ?case by (rule keeps_prims_trans [OF _ keeps_prims_AddType])
next
  case (r_AddType_t st t)
  from this(2) show ?case by (rule keeps_prims_trans [OF _ keeps_prims_AddType_t])
next
  case (r_AddStruct st name align)
  from this(2) show ?case unfolding AddStruct_def Let_def
    by (rule keeps_prims_trans [OF _ keeps_prims_AddStruct_s])
next
  case (r_AddStruct_s st s)
  from this(2) show ?case by (rule keeps_prims_trans [OF _ keeps_prims_AddStruct_s])
next
  case (r_AddUnion st name align)
  from this(2) show ?case unfolding AddUnion_def Let_def
    by (rule keeps_prims_trans [OF _ keeps_prims_AddUnion_u])
next
  case (r_AddUnion_u st u)
  from this(2) show ?case by (rule keeps_prims_trans [OF _ keeps_prims_AddUnion_u])
next
  case (r_AddMember st parent name type offs arr ok st')
  then show ?case by (blast intro: keeps_prims_trans [OF _ keeps_prims_AddMember])
next
  case (r_AppendMember st name type offs arr ok st')
  then show ?case unfolding AppendMember_def
    by (blast intro: keeps_prims_trans [OF _ keeps_prims_AddMember])
next
  case (r_AddMember_m st parent member)
  from this(2) show ?case by (rule keeps_prims_trans [OF _ keeps_prims_AddMember_m])
qed

lemma reachable_ptr: "reachable ptr st \<Longrightarrow> 0 < ptr"
  by (induction rule: reachable.induct) auto


lemma reachable_primitives:
  "reachable ptr st \<Longrightarrow> primitives st = primitives (TypeManager_new ptr)"
  using reachable_keeps [of ptr st] by (simp add: keeps_prims_def)

lemma reachable_primsize:
  "reachable ptr st \<Longrightarrow> primsize st k = primsize (TypeManager_new ptr) k"
  using reachable_keeps [of ptr st] by (simp add: keeps_prims_def)

text \<open>
  In every state of the class each kind that \<open>primitives\<close> holds has its entry in
  \<open>primitivesizes\<close>: the read of line 240 in \<^verbatim>\<open>getSizeof\<close> finds it.
\<close>

lemma reachable_kinds_sized:
  assumes "reachable ptr st" and "primitives st n = Some k"
  shows "k \<in> dom (primitivesizes st)"
proof -
  have "primitives (TypeManager_new ptr) n = Some k"
    using assms by (simp add: reachable_primitives)
  then have "k \<in> dom (primitivesizes (TypeManager_new ptr))"
    by (rule kinds_sized_new)
  moreover have "dom (primitivesizes (TypeManager_new ptr)) \<subseteq> dom (primitivesizes st)"
    using reachable_keeps [OF assms(1)] by (simp add: keeps_prims_def)
  ultimately show ?thesis by blast
qed

lemmas new_simps = primitives_new primitivesizes_new containers_new

subsection \<open>The branches of getSizeof\<close>

lemma getSizeof_deep: "100 \<le> depth \<Longrightarrow> getSizeof st type depth = Some (0, 0)"
  by (subst getSizeof.simps) simp

lemma getSizeof_primitive:
  "depth < 100 \<Longrightarrow> primitives st type = Some k \<Longrightarrow>
   getSizeof st type depth = Some (primsize st k sdiv 8, 0)"
  by (subst getSizeof.simps) simp

lemma getSizeof_type:
  "depth < 100 \<Longrightarrow> primitives st type = None \<Longrightarrow> types st type = Some t \<Longrightarrow>
   getSizeof st type depth =
     Some ((if bitsize t smod 8 \<noteq> 0 then wrap (bitsize t + (8 - bitsize t smod 8))
            else bitsize t) sdiv 8, 0)"
  by (subst getSizeof.simps) (simp add: Let_def)

lemma getSizeof_unknown:
  "primitives st type = None \<Longrightarrow> types st type = None \<Longrightarrow> structs st type = None \<Longrightarrow>
   getSizeof st type depth = Some (0, 0)"
  by (subst getSizeof.simps) simp

lemma getSizeof_no_members:
  "primitives st type = None \<Longrightarrow> types st type = None \<Longrightarrow> structs st type = Some s \<Longrightarrow>
   members s = [] \<Longrightarrow> getSizeof st type depth = Some (0, 0)"
  by (subst getSizeof.simps) simp

lemma getSizeof_union:
  "depth < 100 \<Longrightarrow> primitives st type = None \<Longrightarrow> types st type = None \<Longrightarrow>
   structs st type = Some s \<Longrightarrow> members s \<noteq> [] \<Longrightarrow> isunion s \<Longrightarrow>
   getSizeof st type depth = unionSize st s (members s) depth 0"
  by (subst getSizeof.simps) simp

lemma getSizeof_struct:
  "depth < 100 \<Longrightarrow> primitives st type = None \<Longrightarrow> types st type = None \<Longrightarrow>
   structs st type = Some s \<Longrightarrow> members s \<noteq> [] \<Longrightarrow> \<not> isunion s \<Longrightarrow>
   getSizeof st type depth =
     (case getSizeof st (m_type (last (members s))) (depth + 1) of
        None \<Rightarrow> None
      | Some (sz, pad) \<Rightarrow>
          if wrap (sz * arrcount (last (members s))) = 0 then Some (0, 0)
          else alignSize s (wrap (offset (last (members s)) + wrap (sz * arrcount (last (members s))))))"
  by (subst getSizeof.simps) (simp add: Let_def split: option.splits prod.splits)

subsection \<open>Fresh names\<close>

lemma AddStruct_fresh:
  "\<not> isDefined st name \<Longrightarrow>
   AddStruct ptr st name align =
     (True, st\<lparr>laststruct := name,
               structs := (structs st)(name \<mapsto>
                 \<lparr>isunion = False, alignment = (if align > 0 then align else ptr),
                  s_name = name, members = []\<rparr>)\<rparr>)"
  by (simp add: AddStruct_def AddStruct_s_def Let_def StructUnion_default_def
      isDefined_laststruct map_insert_fresh not_isDefined_iff)

lemma AddUnion_fresh:
  "\<not> isDefined st name \<Longrightarrow>
   AddUnion ptr st name align =
     (True, st\<lparr>laststruct := name,
               structs := (structs st)(name \<mapsto>
                 \<lparr>isunion = True, alignment = (if align > 0 then align else ptr),
                  s_name = name, members = []\<rparr>)\<rparr>)"
  by (simp add: AddUnion_def AddUnion_u_def Let_def StructUnion_default_def
      isDefined_laststruct map_insert_fresh not_isDefined_iff)

subsection \<open>Calls that return false\<close>

lemma AddStruct_s_defined:
  "isDefined st (s_name s) \<Longrightarrow> AddStruct_s st s = (False, st\<lparr>laststruct := s_name s\<rparr>)"
  by (simp add: AddStruct_s_def Let_def isDefined_laststruct)

lemma AddUnion_u_defined:
  "isDefined st (s_name u) \<Longrightarrow> AddUnion_u st u = (False, st\<lparr>laststruct := s_name u\<rparr>)"
  by (simp add: AddUnion_u_def Let_def isDefined_laststruct)

lemma AddStruct_defined:
  "isDefined st name \<Longrightarrow> AddStruct ptr st name align = (False, st\<lparr>laststruct := name\<rparr>)"
  by (simp add: AddStruct_def Let_def AddStruct_s_defined)

lemma AddUnion_defined:
  "isDefined st name \<Longrightarrow> AddUnion ptr st name align = (False, st\<lparr>laststruct := name\<rparr>)"
  by (simp add: AddUnion_def Let_def AddUnion_u_defined)

lemma AddStruct_s_False:
  "AddStruct_s st s = (False, st') \<Longrightarrow> isDefined st (s_name s) \<and> st' = st\<lparr>laststruct := s_name s\<rparr>"
  by (auto simp add: AddStruct_s_def Let_def isDefined_laststruct split: if_splits)

lemma AddUnion_u_False:
  "AddUnion_u st u = (False, st') \<Longrightarrow> isDefined st (s_name u) \<and> st' = st\<lparr>laststruct := s_name u\<rparr>"
  by (auto simp add: AddUnion_u_def Let_def isDefined_laststruct split: if_splits)

lemma AddStruct_False:
  "AddStruct ptr st name align = (False, st') \<Longrightarrow> isDefined st name \<and> st' = st\<lparr>laststruct := name\<rparr>"
  by (auto simp add: AddStruct_def Let_def dest!: AddStruct_s_False split: if_splits)

lemma AddUnion_False:
  "AddUnion ptr st name align = (False, st') \<Longrightarrow> isDefined st name \<and> st' = st\<lparr>laststruct := name\<rparr>"
  by (auto simp add: AddUnion_def Let_def dest!: AddUnion_u_False split: if_splits)

lemma AddType_t_False: "AddType_t st t = (False, st') \<Longrightarrow> isDefined st (t_name t) \<and> st' = st"
  by (auto simp add: AddType_t_def split: if_splits)

lemma AddType_False:
  "AddType st name prim bits pto = (False, st') \<Longrightarrow>
   (isDefined st name \<and> st' = st)
   \<or> (\<not> isDefined st name \<and> 0 < bits \<and> primsize st prim < bits \<and> st' = touch_primsize st prim)"
  by (auto simp add: AddType_def AddType_t_def Let_def isDefined_touch split: if_splits)

lemma AddType_spelling_False:
  "AddType_spelling st name spelling = (False, st') \<Longrightarrow>
   (primitives st spelling = None \<or> isDefined st name) \<and> st' = st"
  by (auto simp add: AddType_spelling_def split: option.splits dest!: AddType_False)

lemma AddMember_False:
  "AddMember st parent name type offs arr = Some (False, st') \<Longrightarrow> st' = st"
  by (auto simp add: AddMember_def split: option.splits if_splits prod.splits)

lemma AddMember_m_False: "AddMember_m st parent member = (False, st') \<Longrightarrow> st' = st"
  by (auto simp add: AddMember_m_def split: option.splits)

subsection \<open>The kinds without a width\<close>

lemma touch_primsize_cases:
  "touch_primsize st k = st
   \<or> (primitivesizes st k = None \<and> touch_primsize st k = st\<lparr>primitivesizes := (primitivesizes st)(k \<mapsto> 0)\<rparr>)"
  by (simp add: touch_primsize_def split: option.splits)

lemma reachable_sized:
  assumes "reachable ptr st" and "k \<noteq> Uint16"
  shows "primitivesizes st k \<noteq> None"
proof -
  have "k \<in> dom (primitivesizes (TypeManager_new ptr))"
    using assms(2) by (cases k) (simp_all add: primitivesizes_new)
  moreover have "dom (primitivesizes (TypeManager_new ptr)) \<subseteq> dom (primitivesizes st)"
    using reachable_keeps [OF assms(1)] by (simp add: keeps_prims_def)
  ultimately show ?thesis by blast
qed

lemma reachable_touch: "reachable ptr st \<Longrightarrow> k \<noteq> Uint16 \<Longrightarrow> touch_primsize st k = st"
  using reachable_sized [of ptr st k] by (auto simp add: touch_primsize_def split: option.splits)

subsection \<open>Appending a member\<close>

lemma push_member_fields:
  "primitives (push_member st parent s m) = primitives st"
  "primitivesizes (push_member st parent s m) = primitivesizes st"
  "types (push_member st parent s m) = types st"
  "laststruct (push_member st parent s m) = laststruct st"
  "structs (push_member st parent s m) = (structs st)(parent \<mapsto> s\<lparr>members := members s @ [m]\<rparr>)"
  by (simp_all add: push_member_def)

lemma primsize_push: "primsize (push_member st parent s m) k = primsize st k"
  by (simp add: primsize_def push_member_fields)

lemma AddMember_explicit:
  "structs st parent = Some s \<Longrightarrow> 0 \<le> arr \<Longrightarrow> isDefined st type \<Longrightarrow>
   name \<notin> set (map m_name (members s)) \<Longrightarrow> 0 \<le> offs \<Longrightarrow>
   AddMember st parent name type offs arr =
     Some (True, push_member st parent s
       \<lparr>m_name = name, m_type = type, offset = offs, arrsize = arr\<rparr>)"
  by (simp add: AddMember_def)

lemma AddMember_auto:
  "structs st parent = Some s \<Longrightarrow> 0 \<le> arr \<Longrightarrow> isDefined st type \<Longrightarrow>
   name \<notin> set (map m_name (members s)) \<Longrightarrow> offs < 0 \<Longrightarrow>
   getSizeof st parent 0 = Some (sz, pad) \<Longrightarrow> members s = [] \<or> sz \<noteq> 0 \<Longrightarrow>
   Sizeof st type = Some typesize \<Longrightarrow>
   AddMember st parent name type offs arr =
     Some (True, push_member st parent s
       \<lparr>m_name = name, m_type = type,
        offset = (if pad \<noteq> 0 \<and> typesize \<le> pad then wrap (sz - pad) else sz), arrsize = arr\<rparr>)"
  by (auto simp add: AddMember_def)

lemma AddMember_duplicate:
  "structs st parent = Some s \<Longrightarrow> name \<in> set (map m_name (members s)) \<Longrightarrow>
   AddMember st parent name type offs arr = Some (False, st)"
  by (simp add: AddMember_def)

lemma AddMember_undefined_type:
  "\<not> isDefined st type \<Longrightarrow> AddMember st parent name type offs arr = Some (False, st)"
  by (simp add: AddMember_def split: option.splits)


lemma AddMember_auto_offset:
  assumes "offs < 0" and "AddMember st parent name type offs arr = Some (True, st')"
  shows "\<exists>s sz pad typesize.
           structs st parent = Some s \<and> getSizeof st parent 0 = Some (sz, pad)
         \<and> Sizeof st type = Some typesize
         \<and> st' = st\<lparr>structs := (structs st)(parent \<mapsto> s\<lparr>members := members s @
               [\<lparr>m_name = name, m_type = type,
                 offset = (if pad \<noteq> 0 \<and> typesize \<le> pad then wrap (sz - pad) else sz),
                 arrsize = arr\<rparr>]\<rparr>)\<rparr>"
  using assms
  by (auto simp add: AddMember_def push_member_def split: option.splits if_splits prod.splits)

subsection \<open>Widths in the states of the class\<close>

lemma primsize_new:
  "primsize (TypeManager_new ptr) Int8 = 8"
  "primsize (TypeManager_new ptr) Uint8 = 8"
  "primsize (TypeManager_new ptr) Int16 = 16"
  "primsize (TypeManager_new ptr) Uint16 = 0"
  "primsize (TypeManager_new ptr) Int32 = 32"
  "primsize (TypeManager_new ptr) Uint32 = 32"
  "primsize (TypeManager_new ptr) Int64 = 64"
  "primsize (TypeManager_new ptr) Uint64 = 64"
  "primsize (TypeManager_new ptr) Dsint = ptr * 8"
  "primsize (TypeManager_new ptr) Duint = ptr * 8"
  "primsize (TypeManager_new ptr) Pointer = ptr * 8"
  "primsize (TypeManager_new ptr) Float = 32"
  "primsize (TypeManager_new ptr) Double = 64"
  by (simp_all add: primsize_def primitivesizes_new)

lemma primsize_structs_update [simp]:
  "primsize (st\<lparr>structs := x\<rparr>) k = primsize st k"
  "primsize (st\<lparr>laststruct := y\<rparr>) k = primsize st k"
  "primsize (st\<lparr>types := z\<rparr>) k = primsize st k"
  by (simp_all add: primsize_def)

subsection \<open>A struct of an int32 and an int64\<close>

lemma packing_scenario:
  assumes r: "reachable ptr st" and fresh: "\<not> isDefined st sn" and ne: "na \<noteq> nb"
  shows "\<exists>st1 st2 st3 st4.
           AddStruct ptr st sn 8 = (True, st1)
         \<and> AddMember st1 sn na ''int32'' (-1) 0 = Some (True, st2)
         \<and> laststruct st1 = sn
         \<and> AppendMember st1 na ''int32'' (-1) 0 = Some (True, st2)
         \<and> laststruct st2 = sn \<and> getSizeof st2 sn 0 = Some (8, 4)
         \<and> Sizeof st2 ''int64'' = Some 8 \<and> Sizeof st2 ''int8'' = Some 1
         \<and> AddMember st2 sn nb ''int64'' (-1) 0 = Some (True, st3)
         \<and> AppendMember st2 nb ''int64'' (-1) 0 = Some (True, st3)
         \<and> map_option members (structs st3 sn) =
             Some [\<lparr>m_name = na, m_type = ''int32'', offset = 0, arrsize = 0\<rparr>,
                   \<lparr>m_name = nb, m_type = ''int64'', offset = 8, arrsize = 0\<rparr>]
         \<and> Sizeof st3 sn = Some 16
         \<and> AddMember st2 sn nb ''int8'' (-1) 0 = Some (True, st4)
         \<and> AppendMember st2 nb ''int8'' (-1) 0 = Some (True, st4)
         \<and> map_option members (structs st4 sn) =
             Some [\<lparr>m_name = na, m_type = ''int32'', offset = 0, arrsize = 0\<rparr>,
                   \<lparr>m_name = nb, m_type = ''int8'', offset = 4, arrsize = 0\<rparr>]
         \<and> Sizeof st4 sn = Some 8"
proof -
  define S0 where "S0 = \<lparr>isunion = False, alignment = 8, s_name = sn, members = []\<rparr>"
  define mA where "mA = \<lparr>m_name = na, m_type = ''int32'', offset = 0, arrsize = 0\<rparr>"
  define mB where "mB = \<lparr>m_name = nb, m_type = ''int64'', offset = 8, arrsize = 0\<rparr>"
  define mC where "mC = \<lparr>m_name = nb, m_type = ''int8'', offset = 4, arrsize = 0\<rparr>"
  define S1 where "S1 = S0\<lparr>members := members S0 @ [mA]\<rparr>"
  define S2 where "S2 = S1\<lparr>members := members S1 @ [mB]\<rparr>"
  define S3 where "S3 = S1\<lparr>members := members S1 @ [mC]\<rparr>"
  define st1 where "st1 = st\<lparr>laststruct := sn, structs := (structs st)(sn \<mapsto> S0)\<rparr>"
  define st2 where "st2 = push_member st1 sn S0 mA"
  define st3 where "st3 = push_member st2 sn S1 mB"
  define st4 where "st4 = push_member st2 sn S1 mC"
  have prims: "primitives st = primitives (TypeManager_new ptr)"
    by (rule reachable_primitives [OF r])
  have p32: "primitives st ''int32'' = Some Int32" and p64: "primitives st ''int64'' = Some Int64"
    and p8: "primitives st ''int8'' = Some Int8"
    by (simp_all add: prims primitives_new)
  have w32: "primsize st Int32 = 32" and w64: "primsize st Int64 = 64"
    and w8: "primsize st Int8 = 8"
    by (simp_all add: reachable_primsize [OF r] primsize_new)
  have nsn: "primitives st sn = None" "types st sn = None" "structs st sn = None"
    using fresh by (simp_all add: not_isDefined_iff)
  have step1: "AddStruct ptr st sn 8 = (True, st1)"
    by (simp add: AddStruct_fresh [OF fresh] st1_def S0_def)
  have f1: "primitives st1 = primitives st" "types st1 = types st"
    "structs st1 sn = Some S0" "\<And>k. primsize st1 k = primsize st k"
    by (simp_all add: st1_def)
  have f2: "primitives st2 = primitives st" "types st2 = types st"
    "structs st2 sn = Some S1" "\<And>k. primsize st2 k = primsize st k"
    by (simp_all add: st2_def push_member_fields primsize_push f1 S1_def)
  have f3: "primitives st3 = primitives st" "types st3 = types st"
    "structs st3 sn = Some S2" "\<And>k. primsize st3 k = primsize st k"
    by (simp_all add: st3_def push_member_fields primsize_push f2 S2_def)
  have f4: "primitives st4 = primitives st" "types st4 = types st"
    "structs st4 sn = Some S3" "\<And>k. primsize st4 k = primsize st k"
    by (simp_all add: st4_def push_member_fields primsize_push f2 S3_def)
  have l1: "laststruct st1 = sn" and l2: "laststruct st2 = sn"
    by (simp_all add: st1_def st2_def push_member_fields)
  have d1: "isDefined st1 ''int32''" and d2: "isDefined st2 ''int64''"
    and d3: "isDefined st2 ''int8''"
    by (simp_all add: isDefined_def mapContains_def f1 f2 p32 p64 p8)
  have g1: "getSizeof st1 sn 0 = Some (0, 0)"
    by (rule getSizeof_no_members [where s = S0]) (simp_all add: f1 nsn S0_def)
  have t1: "Sizeof st1 ''int32'' = Some 4"
    by (simp add: Sizeof_def getSizeof_primitive [where k = Int32] f1 p32 w32)
  have step2: "AddMember st1 sn na ''int32'' (-1) 0 = Some (True, st2)"
    using AddMember_auto [of st1 sn S0 0 "''int32''" na "-1" 0 0 4, OF f1(3) _ d1 _ _ g1 _ t1]
    by (simp add: S0_def st2_def mA_def)
  have a2: "getSizeof st2 ''int32'' 1 = Some (4, 0)"
    by (simp add: getSizeof_primitive [where k = Int32] f2 p32 w32)
  have g2: "getSizeof st2 sn 0 = Some (8, 4)"
    by (subst getSizeof_struct [where s = S1])
       (simp_all add: f2 nsn S1_def S0_def mA_def a2 arrcount_def alignSize_def int_simps)
  have t2: "Sizeof st2 ''int64'' = Some 8"
    by (simp add: Sizeof_def getSizeof_primitive [where k = Int64] f2 p64 w64)
  have t3: "Sizeof st2 ''int8'' = Some 1"
    by (simp add: Sizeof_def getSizeof_primitive [where k = Int8] f2 p8 w8)
  have step3: "AddMember st2 sn nb ''int64'' (-1) 0 = Some (True, st3)"
    using AddMember_auto [of st2 sn S1 0 "''int64''" nb "-1" 8 4 8, OF f2(3) _ d2 _ _ g2 _ t2] ne
    by (simp add: S1_def S0_def st3_def mA_def mB_def)
  have step4: "AddMember st2 sn nb ''int8'' (-1) 0 = Some (True, st4)"
    using AddMember_auto [of st2 sn S1 0 "''int8''" nb "-1" 8 4 1, OF f2(3) _ d3 _ _ g2 _ t3] ne
    by (simp add: S1_def S0_def st4_def mA_def mC_def wrap_def)
  have a3: "getSizeof st3 ''int64'' 1 = Some (8, 0)"
    by (simp add: getSizeof_primitive [where k = Int64] f3 p64 w64)
  have g3: "getSizeof st3 sn 0 = Some (16, 0)"
    by (subst getSizeof_struct [where s = S2])
       (simp_all add: f3 nsn S2_def S1_def S0_def mA_def mB_def a3 arrcount_def alignSize_def
         int_simps)
  have a4: "getSizeof st4 ''int8'' 1 = Some (1, 0)"
    by (simp add: getSizeof_primitive [where k = Int8] f4 p8 w8)
  have g4: "getSizeof st4 sn 0 = Some (8, 3)"
    by (subst getSizeof_struct [where s = S3])
       (simp_all add: f4 nsn S3_def S1_def S0_def mA_def mC_def a4 arrcount_def alignSize_def
         int_simps)
  have m3: "map_option members (structs st3 sn) = Some [mA, mB]"
    by (simp add: f3 S2_def S1_def S0_def)
  have m4: "map_option members (structs st4 sn) = Some [mA, mC]"
    by (simp add: f4 S3_def S1_def S0_def)
  have app: "AppendMember st1 na ''int32'' (-1) 0 = Some (True, st2)"
    "AppendMember st2 nb ''int64'' (-1) 0 = Some (True, st3)"
    "AppendMember st2 nb ''int8'' (-1) 0 = Some (True, st4)"
    using step2 step3 step4 by (simp_all add: AppendMember_def l1 l2)
  have z3: "Sizeof st3 sn = Some 16" and z4: "Sizeof st4 sn = Some 8"
    using g3 g4 by (simp_all add: Sizeof_def)
  show ?thesis
    using step1 step2 step3 step4 app m3 m4 z3 z4 g2 t2 t3 l1 l2 unfolding mA_def mB_def mC_def
    by blast
qed

subsection \<open>Size computations that return\<close>

lemma alignSize_total:
  "alignment s \<noteq> 0 \<Longrightarrow> alignment s \<noteq> - 1 \<Longrightarrow> alignSize s c \<noteq> None"
  by (simp add: alignSize_def rem_Some)

lemma alignSize_total':
  "alignment s \<noteq> 0 \<Longrightarrow> alignment s \<noteq> - 1 \<Longrightarrow> \<exists>a b. alignSize s c = Some (a, b)"
  by (simp add: alignSize_def rem_Some)

lemma getSizeof_total_aux:
  "(aligned st \<longrightarrow> getSizeof st type depth \<noteq> None)"
  "(aligned st \<longrightarrow> alignment s \<noteq> 0 \<longrightarrow> alignment s \<noteq> - 1 \<longrightarrow>
      unionSize st s ms depth' c \<noteq> None)"
proof (induction st type depth and st s ms depth' c rule: getSizeof_unionSize.induct)
  case (1 st type depth)
  show ?case
  proof
    assume al: "aligned st"
    show "getSizeof st type depth \<noteq> None"
    proof (cases "100 \<le> depth")
      case True
      then show ?thesis by (simp add: getSizeof_deep)
    next
      case deep: False
      show ?thesis
      proof (cases "primitives st type")
        case (Some k)
        with deep show ?thesis by (simp add: getSizeof_primitive)
      next
        case np: None
        show ?thesis
        proof (cases "types st type")
          case (Some t)
          with deep np show ?thesis by (simp add: getSizeof_type)
        next
          case nt: None
          show ?thesis
          proof (cases "structs st type")
            case None
            with np nt show ?thesis by (simp add: getSizeof_unknown)
          next
            case (Some s)
            then have as: "alignment s \<noteq> 0" "alignment s \<noteq> - 1"
              using al by (simp_all add: aligned_def)
            show ?thesis
            proof (cases "members s = []")
              case True
              with np nt Some show ?thesis by (simp add: getSizeof_no_members)
            next
              case ne: False
              show ?thesis
              proof (cases "isunion s")
                case True
                have "unionSize st s (members s) depth 0 \<noteq> None"
                  using "1.IH"(1) [OF deep np nt Some ne True] al as by simp
                with deep np nt Some ne True show ?thesis by (simp add: getSizeof_union)
              next
                case False
                have "getSizeof st (m_type (last (members s))) (depth + 1) \<noteq> None"
                  using "1.IH"(2) [OF deep np nt Some ne False] al by simp
                with deep np nt Some ne False as show ?thesis
                  by (auto simp add: getSizeof_struct alignSize_total' split: option.splits)
              qed
            qed
          qed
        qed
      qed
    qed
  qed
next
  case (2 st s depth cursize)
  show ?case by (simp add: alignSize_total)
next
  case (3 st s member rest depth cursize)
  show ?case
  proof (intro impI)
    assume al: "aligned st" and as: "alignment s \<noteq> 0" and as': "alignment s \<noteq> - 1"
    from "3.IH"(1) al obtain sz pad where g: "getSizeof st (m_type member) (depth + 1) = Some (sz, pad)"
      by (cases "getSizeof st (m_type member) (depth + 1)") auto
    show "unionSize st s (member # rest) depth cursize \<noteq> None"
    proof (cases "wrap (sz * arrcount member) = 0")
      case True
      with g show ?thesis by simp
    next
      case False
      from "3.IH"(2) [OF g refl refl False] al as as'
      show ?thesis using g False by (simp add: Let_def)
    qed
  qed
qed

lemma getSizeof_total: "aligned st \<Longrightarrow> \<exists>sz pad. getSizeof st type depth = Some (sz, pad)"
  using getSizeof_total_aux(1) [of st type depth] by (cases "getSizeof st type depth") auto


subsection \<open>Calls of AddMember that return\<close>


lemma AddMember_True:
  assumes "AddMember st parent name type offs arr = Some (True, st')"
  shows "\<exists>s off. structs st parent = Some s
         \<and> st' = st\<lparr>structs := (structs st)(parent \<mapsto> s\<lparr>members := members s @
              [\<lparr>m_name = name, m_type = type, offset = off, arrsize = arr\<rparr>]\<rparr>)\<rparr>"
  using assms
  by (auto simp add: AddMember_def push_member_def split: option.splits if_splits prod.splits)

lemma failed_pair: "\<not> fst x \<Longrightarrow> x = (False, snd x)"
  by (cases x) simp

subsection \<open>Defining a type\<close>

lemma reachable_natural_width:
  "reachable ptr st \<Longrightarrow> k \<noteq> Uint16 \<Longrightarrow> primsize st k = natural_width ptr k"
  by (cases k) (simp_all add: reachable_primsize primsize_new natural_width_def)

lemma reachable_Uint16_width: "reachable ptr st \<Longrightarrow> primsize st Uint16 = 0"
  by (simp add: reachable_primsize primsize_new)

lemma AddType_stores:
  assumes "\<not> isDefined st name" and "bits \<le> 0 \<or> bits \<le> primsize st prim"
  shows "AddType st name prim bits pto =
           (True, (touch_primsize st prim)\<lparr>types := (types st)(name \<mapsto>
               \<lparr>t_name = name, primitive = prim,
                bitsize = (if bits \<le> 0 then primsize st prim else bits), pointto = pto\<rparr>)\<rparr>)"
proof -
  have "types st name = None"
    using assms(1) by (simp add: not_isDefined_iff)
  then show ?thesis
    using assms
    by (auto simp add: AddType_def AddType_t_def Let_def isDefined_touch touch_primsize_fields
        map_insert_fresh)
qed

lemma AddType_fails_iff:
  "(\<not> fst (AddType st name prim bits pto)) = (isDefined st name \<or> (0 < bits \<and> primsize st prim < bits))"
  by (auto simp add: AddType_def AddType_t_def Let_def isDefined_touch)

lemma AddType_succeeds_iff:
  "fst (AddType st name prim bits pto) = (\<not> isDefined st name \<and> (bits \<le> 0 \<or> bits \<le> primsize st prim))"
  using AddType_fails_iff [of st name prim bits pto] by auto

lemma Sizeof_alias:
  assumes "primitives st n = None" and "types st n = Some t"
  shows "Sizeof st n =
    Some ((if bitsize t smod 8 \<noteq> 0 then wrap (bitsize t + (8 - bitsize t smod 8))
           else bitsize t) sdiv 8)"
  using assms by (simp add: Sizeof_def getSizeof_type)

lemma AddType_natural_width:
  assumes "reachable ptr st" and "prim \<noteq> Uint16"
  shows "(\<not> fst (AddType st name prim bits pto)) =
           (isDefined st name \<or> natural_width ptr prim < bits)"
proof -
  have "0 \<le> natural_width ptr prim"
    using reachable_ptr [OF assms(1)] by (cases prim) (simp_all add: natural_width_def)
  then show ?thesis
    using reachable_natural_width [OF assms] by (auto simp add: AddType_fails_iff)
qed

lemma AddType_Int32_alias:
  assumes r: "reachable ptr st" and n: "\<not> isDefined st name"
  shows "\<not> fst (AddType st name Int32 40 pto)"
    and "fst (AddType st name Int32 16 pto)"
    and "Sizeof (snd (AddType st name Int32 16 pto)) name = Some 2"
proof -
  have w: "primsize st Int32 = 32"
    by (simp add: reachable_primsize [OF r] primsize_new)
  show "\<not> fst (AddType st name Int32 40 pto)" "fst (AddType st name Int32 16 pto)"
    using n w by (simp_all add: AddType_fails_iff AddType_succeeds_iff)
  have st: "AddType st name Int32 16 pto =
           (True, (touch_primsize st Int32)\<lparr>types := (types st)(name \<mapsto>
               \<lparr>t_name = name, primitive = Int32, bitsize = 16, pointto = pto\<rparr>)\<rparr>)"
    using AddType_stores [of st name 16 Int32 pto] n w by simp
  have p: "primitives (snd (AddType st name Int32 16 pto)) name = None"
    using n by (simp add: st touch_primsize_fields not_isDefined_iff)
  have t: "types (snd (AddType st name Int32 16 pto)) name =
      Some \<lparr>t_name = name, primitive = Int32, bitsize = 16, pointto = pto\<rparr>"
    by (simp add: st)
  show "Sizeof (snd (AddType st name Int32 16 pto)) name = Some 2"
    by (simp add: Sizeof_alias [OF p t] int_simps)
qed

lemma sdiv_8_nonneg: "0 \<le> x \<Longrightarrow> x sdiv 8 = x div 8" for x :: int
  by (simp add: signed_divide_int_def sgn_if)

subsection \<open>Cycles\<close>

lemma unionSize_zero_member:
  assumes al: "aligned st"
    and m: "m \<in> set ms" and z: "getSizeof st (m_type m) (depth + 1) = Some (0, p)"
  shows "unionSize st s ms depth cur = Some (0, 0)"
  using m
proof (induction ms arbitrary: cur)
  case Nil
  then show ?case by simp
next
  case (Cons x xs)
  obtain sz pad where g: "getSizeof st (m_type x) (depth + 1) = Some (sz, pad)"
    using getSizeof_total [OF al] by blast
  show ?case
  proof (cases "wrap (sz * arrcount x) = 0")
    case True
    with g show ?thesis by simp
  next
    case False
    then have "x \<noteq> m" using g z by auto
    with Cons.prems have "m \<in> set xs" by simp
    from Cons.IH [OF this] show ?thesis using g False by (simp add: Let_def)
  qed
qed

lemma cycle_zero:
  assumes al: "aligned st" and cy: "cycle_through st C"
  shows "n \<in> C \<Longrightarrow> getSizeof st n depth = Some (0, 0)"
proof (induction "nat (100 - depth)" arbitrary: n depth)
  case 0
  then show ?case by (simp add: getSizeof_deep)
next
  case (Suc k)
  then have d: "depth < 100" and k: "k = nat (100 - (depth + 1))" by linarith+
  from cy Suc.prems obtain s where np: "primitives st n = None" and nt: "types st n = None"
    and s: "structs st n = Some s" and ne: "members s \<noteq> []"
    and c: "if isunion s then \<exists>m\<in>set (members s). m_type m \<in> C
            else m_type (last (members s)) \<in> C"
    unfolding cycle_through_def by blast
  show ?case
  proof (cases "isunion s")
    case True
    with c obtain m where m: "m \<in> set (members s)" and mc: "m_type m \<in> C" by auto
    have z: "getSizeof st (m_type m) (depth + 1) = Some (0, 0)"
      by (rule Suc.hyps(1) [OF k mc])
    from unionSize_zero_member [OF al m z]
    show ?thesis using d np nt s ne True by (simp add: getSizeof_union)
  next
    case False
    with c have "m_type (last (members s)) \<in> C" by simp
    from Suc.hyps(1) [OF k this]
    show ?thesis using d np nt s ne False by (simp add: getSizeof_struct)
  qed
qed

lemma struct_cycle_zero:
  assumes cy: "struct_cycle st C"
  shows "n \<in> C \<Longrightarrow> getSizeof st n depth = Some (0, 0)"
proof (induction "nat (100 - depth)" arbitrary: n depth)
  case 0
  then show ?case by (simp add: getSizeof_deep)
next
  case (Suc k)
  then have d: "depth < 100" and k: "k = nat (100 - (depth + 1))" by linarith+
  from cy Suc.prems obtain s where np: "primitives st n = None" and nt: "types st n = None"
    and s: "structs st n = Some s" and ne: "members s \<noteq> []" and nu: "\<not> isunion s"
    and c: "m_type (last (members s)) \<in> C"
    unfolding struct_cycle_def by blast
  from Suc.hyps(1) [OF k c]
  show ?case using d np nt s ne nu by (simp add: getSizeof_struct)
qed

subsection \<open>The names of the aggregates\<close>

lemma names_disjoint_AddType_t: "names_disjoint st \<Longrightarrow> names_disjoint (snd (AddType_t st t))"
  by (auto simp add: names_disjoint_def AddType_t_def map_insert_def isDefined_def mapContains_def
      split: option.splits)

lemma names_disjoint_touch: "names_disjoint (touch_primsize st k) = names_disjoint st"
  by (simp add: names_disjoint_def touch_primsize_fields)

lemma names_disjoint_AddType: "names_disjoint st \<Longrightarrow> names_disjoint (snd (AddType st name prim bits pto))"
  by (simp add: AddType_def Let_def names_disjoint_AddType_t names_disjoint_touch)

lemma names_disjoint_AddType_spelling:
  "names_disjoint st \<Longrightarrow> names_disjoint (snd (AddType_spelling st name spelling))"
  by (simp add: AddType_spelling_def names_disjoint_AddType split: option.splits)

lemma names_disjoint_AddStruct_s: "names_disjoint st \<Longrightarrow> names_disjoint (snd (AddStruct_s st s))"
  by (auto simp add: names_disjoint_def AddStruct_s_def Let_def map_insert_def isDefined_def
      mapContains_def split: option.splits)

lemma names_disjoint_AddUnion_u: "names_disjoint st \<Longrightarrow> names_disjoint (snd (AddUnion_u st s))"
  by (auto simp add: names_disjoint_def AddUnion_u_def Let_def map_insert_def isDefined_def
      mapContains_def split: option.splits)

lemma names_disjoint_push:
  "names_disjoint st \<Longrightarrow> structs st parent = Some s \<Longrightarrow> names_disjoint (push_member st parent s m)"
  by (auto simp add: names_disjoint_def push_member_fields)

lemma names_disjoint_AddMember:
  "names_disjoint st \<Longrightarrow> AddMember st parent name type offs arr = Some (ok, st') \<Longrightarrow>
   names_disjoint st'"
  by (auto simp add: AddMember_def names_disjoint_push split: option.splits if_splits prod.splits)

lemma names_disjoint_AddMember_m:
  "names_disjoint st \<Longrightarrow> names_disjoint (snd (AddMember_m st parent m))"
  by (auto simp add: AddMember_m_def names_disjoint_push split: option.splits)

lemma reachable_names_disjoint: "reachable ptr st \<Longrightarrow> names_disjoint st"
proof (induction rule: reachable.induct)
  case r_new
  show ?case by (simp add: names_disjoint_def containers_new)
next
  case (r_AddStruct st name align)
  then show ?case by (simp add: AddStruct_def Let_def names_disjoint_AddStruct_s)
next
  case (r_AddUnion st name align)
  then show ?case by (simp add: AddUnion_def Let_def names_disjoint_AddUnion_u)
next
  case (r_AddMember st parent name type offs arr ok st')
  then show ?case by (blast intro: names_disjoint_AddMember)
next
  case (r_AppendMember st name type offs arr ok st')
  then show ?case unfolding AppendMember_def by (blast intro: names_disjoint_AddMember)
qed (simp_all add: names_disjoint_AddType_spelling names_disjoint_AddType names_disjoint_AddType_t
      names_disjoint_AddStruct_s names_disjoint_AddUnion_u names_disjoint_AddMember_m)

lemma reachable_struct_name:
  "reachable ptr st \<Longrightarrow> structs st n = Some s \<Longrightarrow> primitives st n = None \<and> types st n = None"
  using reachable_names_disjoint [of ptr st] by (simp add: names_disjoint_def)

subsection \<open>The size of a union\<close>

lemma round_up_bounds:
  assumes a: "0 < a"
  shows "a dvd round_up a x \<and> x \<le> round_up a x \<and> round_up a x < x + a"
proof (cases "x mod a = 0")
  case True
  then show ?thesis using a by (auto simp add: round_up_def)
next
  case False
  have b: "0 \<le> x mod a" "x mod a < a"
    using a by simp_all
  have "x + (a - x mod a) = a * (x div a + 1)"
    by (simp add: algebra_simps minus_mod_eq_mult_div [symmetric])
  then have "a dvd x + (a - x mod a)"
    by simp
  then show ?thesis using a b False by (auto simp add: round_up_def)
qed

lemma round_up_least:
  assumes a: "0 < a" and d: "a dvd q" and x: "x \<le> q"
  shows "round_up a x \<le> q"
proof (rule ccontr)
  assume "\<not> round_up a x \<le> q"
  then have lt: "0 < round_up a x - q" by simp
  have "a dvd round_up a x - q"
    using round_up_bounds [OF a, of x] d by (simp add: dvd_diff)
  then have "a \<le> round_up a x - q"
    using lt by (rule zdvd_imp_le)
  then show False
    using round_up_bounds [OF a, of x] x by simp
qed

lemma alignSize_round_up:
  assumes a: "0 < alignment s" and x: "0 \<le> x"
    and fit: "round_up (alignment s) x \<le> INT_MAX"
  shows "alignSize s x = Some (round_up (alignment s) x, round_up (alignment s) x - x)"
proof -
  have sm: "rem x (alignment s) = Some (x mod alignment s)"
    using a x by (simp add: rem_def smod_nonneg)
  have b: "0 \<le> x mod alignment s" "x mod alignment s < alignment s"
    using a by simp_all
  show ?thesis
  proof (cases "x mod alignment s = 0")
    case True
    then show ?thesis by (simp add: alignSize_def sm round_up_def)
  next
    case False
    then have ru: "round_up (alignment s) x = x + (alignment s - x mod alignment s)"
      by (simp add: round_up_def)
    have "int32 (alignment s - x mod alignment s)"
      using fit x b False unfolding ru int32_def INT_MIN_def INT_MAX_def by linarith
    then have w1: "wrap (alignment s - x mod alignment s) = alignment s - x mod alignment s"
      by (rule wrap_id)
    have "int32 (x + (alignment s - x mod alignment s))"
      using fit x b False unfolding ru int32_def INT_MIN_def INT_MAX_def by linarith
    then have w2: "wrap (x + (alignment s - x mod alignment s)) = x + (alignment s - x mod alignment s)"
      by (rule wrap_id)
    show ?thesis using False by (simp add: alignSize_def sm w1 w2 ru)
  qed
qed

lemma unionSize_max:
  assumes "\<forall>m\<in>set ms. \<exists>sz pad. getSizeof st (m_type m) (depth + 1) = Some (sz, pad)
             \<and> f m = wrap (sz * arrcount m) \<and> f m \<noteq> 0"
  shows "unionSize st s ms depth cur = alignSize s (Max (insert cur (f ` set ms)))"
  using assms
proof (induction ms arbitrary: cur)
  case Nil
  then show ?case by simp
next
  case (Cons m ms)
  from Cons.prems obtain sz pad where g: "getSizeof st (m_type m) (depth + 1) = Some (sz, pad)"
    and f: "f m = wrap (sz * arrcount m)" and nz: "f m \<noteq> 0"
    by auto
  have "unionSize st s (m # ms) depth cur = unionSize st s ms depth (max cur (f m))"
    using g f nz by (simp add: Let_def max_def)
  also have "\<dots> = alignSize s (Max (insert (max cur (f m)) (f ` set ms)))"
    using Cons.prems by (intro Cons.IH) simp
  also have "Max (insert (max cur (f m)) (f ` set ms)) = Max (insert cur (f ` set (m # ms)))"
    by (cases "ms = []") (simp_all add: max.assoc max.commute max.left_commute)
  finally show ?case .
qed

lemma union_size_general:
  assumes np: "primitives st n = None" and nt: "types st n = None"
    and s: "structs st n = Some s" and u: "isunion s" and ne: "members s \<noteq> []"
    and a: "0 < alignment s"
    and ms: "\<forall>m\<in>set (members s). 0 \<le> arrsize m
               \<and> (\<exists>sz pad. getSizeof st (m_type m) 1 = Some (sz, pad) \<and> 0 < sz
                     \<and> f m = sz * max 1 (arrsize m) \<and> f m \<le> INT_MAX)"
    and fit: "round_up (alignment s) (Max (f ` set (members s))) \<le> INT_MAX"
  shows "Sizeof st n = Some (round_up (alignment s) (Max (f ` set (members s))))"
proof -
  have pos: "\<forall>m\<in>set (members s). 0 < f m"
    using ms by (auto simp add: max_def)
  have "\<forall>m\<in>set (members s). \<exists>sz pad. getSizeof st (m_type m) (0 + 1) = Some (sz, pad)
             \<and> f m = wrap (sz * arrcount m) \<and> f m \<noteq> 0"
  proof
    fix m assume m: "m \<in> set (members s)"
    with ms obtain sz pad where g: "getSizeof st (m_type m) 1 = Some (sz, pad)" "0 < sz"
      "f m = sz * max 1 (arrsize m)" "0 \<le> arrsize m" "f m \<le> INT_MAX"
      by blast
    have ac: "arrcount m = max 1 (arrsize m)"
      using \<open>0 \<le> arrsize m\<close> by (simp add: arrcount_def max_def)
    have nz: "0 < f m" using pos m by auto
    then have "int32 (f m)"
      using g(5) by (simp add: int32_def INT_MIN_def)
    then have "wrap (sz * arrcount m) = f m"
      unfolding ac g(3) [symmetric] by (rule wrap_id)
    with g(1) nz show "\<exists>sz pad. getSizeof st (m_type m) (0 + 1) = Some (sz, pad)
             \<and> f m = wrap (sz * arrcount m) \<and> f m \<noteq> 0"
      by simp
  qed
  from unionSize_max [OF this, of s 0]
  have g: "getSizeof st n 0 = alignSize s (Max (insert 0 (f ` set (members s))))"
    using np nt s u ne by (simp add: getSizeof_union)
  have fin: "finite (f ` set (members s))" "f ` set (members s) \<noteq> {}"
    using ne by simp_all
  obtain m0 where m0: "m0 \<in> set (members s)"
    using ne by (cases "members s") auto
  have mpos: "0 < Max (f ` set (members s))"
    using pos fin m0 by (auto simp add: Max_gr_iff)
  then have mx: "Max (insert 0 (f ` set (members s))) = Max (f ` set (members s))"
    using fin by simp
  from alignSize_round_up [OF a _ fit] mpos
  show ?thesis
    by (simp add: Sizeof_def g mx)
qed

lemma round_up_4:
  assumes a: "0 < a" and b: "a \<le> INT_MAX"
  shows "round_up a 4 \<le> INT_MAX"
proof (cases "a \<le> 4")
  case True
  with round_up_bounds [OF a, of 4] show ?thesis by (simp add: INT_MAX_def)
next
  case False
  then have "4 mod a = 4" by simp
  then have "round_up a 4 = a" using False by (simp add: round_up_def)
  with b show ?thesis by simp
qed

lemma union_int8_int32:
  assumes r: "reachable ptr st" and s: "structs st n = Some s" and u: "isunion s"
    and a: "0 < alignment s" and b: "alignment s \<le> INT_MAX" and ms: "members s = [ma, mb]"
    and sc: "arrsize ma = 0" "arrsize mb = 0"
    and k: "(primitives st (m_type ma) = Some Int8 \<and> primitives st (m_type mb) = Some Int32)
          \<or> (primitives st (m_type ma) = Some Int32 \<and> primitives st (m_type mb) = Some Int8)"
  shows "Sizeof st n = Some (round_up (alignment s) 4)"
    and "(round_up (alignment s) 4 = 4) = (alignment s dvd 4)"
proof -
  have w: "primsize st Int8 = 8" "primsize st Int32 = 32"
    by (simp_all add: reachable_primsize [OF r] primsize_new)
  define f where "f m = (if primitives st (m_type m) = Some Int8 then 1 else (4::int))" for m :: Member
  have g: "\<And>t. primitives st t = Some Int8 \<Longrightarrow> getSizeof st t 1 = Some (1, 0)"
    "\<And>t. primitives st t = Some Int32 \<Longrightarrow> getSizeof st t 1 = Some (4, 0)"
    by (simp_all add: getSizeof_primitive w)
  have hyp: "\<forall>m\<in>set (members s). 0 \<le> arrsize m
               \<and> (\<exists>sz pad. getSizeof st (m_type m) 1 = Some (sz, pad) \<and> 0 < sz
                     \<and> f m = sz * max 1 (arrsize m) \<and> f m \<le> INT_MAX)"
    using k sc by (auto simp add: ms f_def g INT_MAX_def)
  have mx: "Max (f ` set (members s)) = 4"
    using k by (auto simp add: ms f_def)
  have fit: "round_up (alignment s) (Max (f ` set (members s))) \<le> INT_MAX"
    unfolding mx by (rule round_up_4 [OF a b])
  from reachable_struct_name [OF r s]
  have "Sizeof st n = Some (round_up (alignment s) (Max (f ` set (members s))))"
    by (intro union_size_general [OF _ _ s u _ a hyp fit]) (simp_all add: ms)
  then show "Sizeof st n = Some (round_up (alignment s) 4)"
    by (simp add: mx)
  define v where "v = round_up (alignment s) 4"
  have v: "alignment s dvd v" "4 \<le> v" "v < 4 + alignment s"
    using round_up_bounds [OF a, of 4] by (simp_all add: v_def)
  have "(v = 4) = (alignment s dvd 4)"
  proof
    assume "v = 4" with v(1) show "alignment s dvd 4" by simp
  next
    assume d: "alignment s dvd 4"
    with v(1) have "alignment s dvd v - 4" by (rule dvd_diff)
    moreover have "0 \<le> v - 4" "v - 4 < alignment s" using v by simp_all
    ultimately have "v - 4 = 0"
      using zdvd_not_zless [of "v - 4" "alignment s"] by (cases "v - 4 = 0") auto
    then show "v = 4" by simp
  qed
  then show "(round_up (alignment s) 4 = 4) = (alignment s dvd 4)"
    by (simp add: v_def)
qed

subsection \<open>The example states\<close>

lemma reachable_new8: "reachable 8 (TypeManager_new 8)"
  by (rule r_new) simp

lemma ex_S0_eq:
  "ex_S0 = (TypeManager_new 8)\<lparr>laststruct := ''S'',
     structs := [''S'' \<mapsto> \<lparr>isunion = False, alignment = 8, s_name = ''S'', members = []\<rparr>]\<rparr>"
proof -
  have "\<not> isDefined (TypeManager_new 8) ''S''"
    by (simp add: not_isDefined_iff new_simps)
  then show ?thesis by (simp add: ex_S0_def AddStruct_fresh new_simps)
qed

lemma reachable_ex_S0: "reachable 8 ex_S0"
  unfolding ex_S0_def by (rule r_AddStruct [OF reachable_new8])

lemma ex_S0_fields:
  "primitives ex_S0 = primitives (TypeManager_new 8)"
  "types ex_S0 = Map.empty"
  "structs ex_S0 = [''S'' \<mapsto> \<lparr>isunion = False, alignment = 8, s_name = ''S'', members = []\<rparr>]"
  "laststruct ex_S0 = ''S''"
  "primsize ex_S0 k = primsize (TypeManager_new 8) k"
  by (simp_all add: ex_S0_eq new_simps)

lemma AddMember_ex_S0:
  "AddMember ex_S0 ''S'' ''a'' ''int32'' (-1) 0 =
     Some (True, ex_S0\<lparr>structs := [''S'' \<mapsto> \<lparr>isunion = False, alignment = 8, s_name = ''S'',
        members = [\<lparr>m_name = ''a'', m_type = ''int32'', offset = 0, arrsize = 0\<rparr>]\<rparr>]\<rparr>)"
proof -
  have 1: "getSizeof ex_S0 ''S'' 0 = Some (0, 0)"
    by (rule getSizeof_no_members [where s = "\<lparr>isunion = False, alignment = 8, s_name = ''S'', members = []\<rparr>"])
       (simp_all add: ex_S0_fields new_simps)
  have 2: "Sizeof ex_S0 ''int32'' = Some 4"
    unfolding Sizeof_def
    by (subst getSizeof_primitive [where k = Int32])
       (simp_all add: ex_S0_fields new_simps primsize_new)
  have 3: "isDefined ex_S0 ''int32''"
    by (simp add: isDefined_def mapContains_def ex_S0_fields new_simps)
  show ?thesis
    using AddMember_auto [of ex_S0 "''S''" _ 0 "''int32''" "''a''" "-1" 0 0 4, OF _ _ 3 _ _ 1 _ 2]
    by (simp add: ex_S0_fields push_member_def)
qed

lemma ex_S1_eq:
  "ex_S1 = (TypeManager_new 8)\<lparr>laststruct := ''S'',
     structs := [''S'' \<mapsto> \<lparr>isunion = False, alignment = 8, s_name = ''S'',
        members = [\<lparr>m_name = ''a'', m_type = ''int32'', offset = 0, arrsize = 0\<rparr>]\<rparr>]\<rparr>"
  by (simp add: ex_S1_def AddMember_ex_S0) (simp add: ex_S0_eq)

lemma reachable_ex_S1: "reachable 8 ex_S1"
  using r_AddMember [OF reachable_ex_S0 AddMember_ex_S0] by (simp add: ex_S1_def AddMember_ex_S0)

lemma ex_S1_fields:
  "primitives ex_S1 = primitives (TypeManager_new 8)"
  "primitivesizes ex_S1 = primitivesizes (TypeManager_new 8)"
  "types ex_S1 = Map.empty"
  "structs ex_S1 = [''S'' \<mapsto> \<lparr>isunion = False, alignment = 8, s_name = ''S'',
        members = [\<lparr>m_name = ''a'', m_type = ''int32'', offset = 0, arrsize = 0\<rparr>]\<rparr>]"
  "laststruct ex_S1 = ''S''"
  "primsize ex_S1 k = primsize (TypeManager_new 8) k"
  by (simp_all add: ex_S1_eq new_simps)





lemma ex_T_eq:
  "ex_T = ex_S1\<lparr>laststruct := ''T'',
     structs := (structs ex_S1)(''T'' \<mapsto> \<lparr>isunion = False, alignment = 8, s_name = ''T'', members = []\<rparr>)\<rparr>"
proof -
  have "\<not> isDefined ex_S1 ''T''"
    by (simp add: not_isDefined_iff ex_S1_fields new_simps)
  then show ?thesis by (simp add: ex_T_def AddStruct_fresh)
qed

lemma ex_C0_fields:
  "primitives ex_C0 = primitives (TypeManager_new 8)"
  "types ex_C0 = Map.empty"
  "structs ex_C0 = [''C'' \<mapsto> \<lparr>isunion = False, alignment = 8, s_name = ''C'', members = []\<rparr>]"
  "primsize ex_C0 k = primsize (TypeManager_new 8) k"
proof -
  have "\<not> isDefined (TypeManager_new 8) ''C''"
    by (simp add: not_isDefined_iff new_simps)
  then show "primitives ex_C0 = primitives (TypeManager_new 8)" "types ex_C0 = Map.empty"
    "structs ex_C0 = [''C'' \<mapsto> \<lparr>isunion = False, alignment = 8, s_name = ''C'', members = []\<rparr>]"
    "primsize ex_C0 k = primsize (TypeManager_new 8) k"
    by (simp_all add: ex_C0_def AddStruct_fresh new_simps)
qed

lemma AddMember_ex_C0:
  "AddMember ex_C0 ''C'' ''self'' ''C'' (-1) 0 =
     Some (True, push_member ex_C0 ''C'' \<lparr>isunion = False, alignment = 8, s_name = ''C'', members = []\<rparr>
        \<lparr>m_name = ''self'', m_type = ''C'', offset = 0, arrsize = 0\<rparr>)"
proof -
  have 1: "getSizeof ex_C0 ''C'' 0 = Some (0, 0)"
    by (rule getSizeof_no_members [where s = "\<lparr>isunion = False, alignment = 8, s_name = ''C'', members = []\<rparr>"])
       (simp_all add: ex_C0_fields new_simps)
  then have 2: "Sizeof ex_C0 ''C'' = Some 0"
    by (simp add: Sizeof_def)
  have 3: "isDefined ex_C0 ''C''"
    by (simp add: isDefined_def mapContains_def ex_C0_fields)
  show ?thesis
    using AddMember_auto [of ex_C0 "''C''" _ 0 "''C''" "''self''" "-1" 0 0 0, OF _ _ 3 _ _ 1 _ 2]
    by (simp add: ex_C0_fields)
qed

lemma ex_C1_fields:
  "primitives ex_C1 = primitives (TypeManager_new 8)"
  "types ex_C1 = Map.empty"
  "structs ex_C1 = [''C'' \<mapsto> \<lparr>isunion = False, alignment = 8, s_name = ''C'',
      members = [\<lparr>m_name = ''self'', m_type = ''C'', offset = 0, arrsize = 0\<rparr>]\<rparr>]"
  "primsize ex_C1 k = primsize (TypeManager_new 8) k"
  by (simp_all add: ex_C1_def AddMember_ex_C0 push_member_fields primsize_push ex_C0_fields)

lemma AddMember_ex_C1:
  "AddMember ex_C1 ''C'' ''x'' ''int32'' 8 0 =
     Some (True, push_member ex_C1 ''C'' \<lparr>isunion = False, alignment = 8, s_name = ''C'',
         members = [\<lparr>m_name = ''self'', m_type = ''C'', offset = 0, arrsize = 0\<rparr>]\<rparr>
        \<lparr>m_name = ''x'', m_type = ''int32'', offset = 8, arrsize = 0\<rparr>)"
proof -
  have 3: "isDefined ex_C1 ''int32''"
    by (simp add: isDefined_def mapContains_def ex_C1_fields new_simps)
  show ?thesis
    by (rule AddMember_explicit [OF _ _ 3]) (simp_all add: ex_C1_fields)
qed

lemma ex_C2_fields:
  "primitives ex_C2 = primitives (TypeManager_new 8)"
  "types ex_C2 = Map.empty"
  "structs ex_C2 = [''C'' \<mapsto> \<lparr>isunion = False, alignment = 8, s_name = ''C'',
      members = [\<lparr>m_name = ''self'', m_type = ''C'', offset = 0, arrsize = 0\<rparr>,
                 \<lparr>m_name = ''x'', m_type = ''int32'', offset = 8, arrsize = 0\<rparr>]\<rparr>]"
  "primsize ex_C2 k = primsize (TypeManager_new 8) k"
  by (simp_all add: ex_C2_def AddMember_ex_C1 push_member_fields primsize_push ex_C1_fields)

lemma ex_AB_fields:
  "primitives ex_AB = primitives (TypeManager_new 8)"
  "types ex_AB = Map.empty"
  "structs ex_AB =
     [''A'' \<mapsto> \<lparr>isunion = False, alignment = 8, s_name = ''A'',
           members = [\<lparr>m_name = ''b'', m_type = ''B'', offset = 0, arrsize = 0\<rparr>]\<rparr>,
      ''B'' \<mapsto> \<lparr>isunion = True, alignment = 8, s_name = ''B'',
           members = [\<lparr>m_name = ''x'', m_type = ''int32'', offset = 0, arrsize = 0\<rparr>,
                      \<lparr>m_name = ''a'', m_type = ''A'', offset = 0, arrsize = 0\<rparr>]\<rparr>]"
  by (simp_all add: ex_AB_def AddStruct_s_def AddUnion_u_def Let_def isDefined_def mapContains_def
      map_insert_def new_simps)





lemma ex_W0_fields:
  "primitives ex_W0 = primitives (TypeManager_new 8)"
  "types ex_W0 = Map.empty"
  "structs ex_W0 = [''W'' \<mapsto> \<lparr>isunion = True, alignment = 8, s_name = ''W'', members = []\<rparr>]"
  "primsize ex_W0 k = primsize (TypeManager_new 8) k"
proof -
  have "\<not> isDefined (TypeManager_new 8) ''W''"
    by (simp add: not_isDefined_iff new_simps)
  then show "primitives ex_W0 = primitives (TypeManager_new 8)" "types ex_W0 = Map.empty"
    "structs ex_W0 = [''W'' \<mapsto> \<lparr>isunion = True, alignment = 8, s_name = ''W'', members = []\<rparr>]"
    "primsize ex_W0 k = primsize (TypeManager_new 8) k"
    by (simp_all add: ex_W0_def AddUnion_fresh new_simps)
qed

lemma AddMember_ex_W0:
  "AddMember ex_W0 ''W'' ''big'' ''int64'' 0 536870912 =
     Some (True, push_member ex_W0 ''W'' \<lparr>isunion = True, alignment = 8, s_name = ''W'', members = []\<rparr>
        \<lparr>m_name = ''big'', m_type = ''int64'', offset = 0, arrsize = 536870912\<rparr>)"
proof -
  have 3: "isDefined ex_W0 ''int64''"
    by (simp add: isDefined_def mapContains_def ex_W0_fields new_simps)
  show ?thesis
    by (rule AddMember_explicit [OF _ _ 3]) (simp_all add: ex_W0_fields)
qed

lemma ex_W1_fields:
  "primitives ex_W1 = primitives (TypeManager_new 8)"
  "types ex_W1 = Map.empty"
  "structs ex_W1 = [''W'' \<mapsto> \<lparr>isunion = True, alignment = 8, s_name = ''W'',
      members = [\<lparr>m_name = ''big'', m_type = ''int64'', offset = 0, arrsize = 536870912\<rparr>]\<rparr>]"
  "primsize ex_W1 k = primsize (TypeManager_new 8) k"
  by (simp_all add: ex_W1_def AddMember_ex_W0 push_member_fields primsize_push ex_W0_fields)

lemma Sizeof_ex_W1: "getSizeof ex_W1 ''W'' 0 = Some (0, 0)"
proof -
  have a64: "getSizeof ex_W1 ''int64'' 1 = Some (8, 0)"
    by (subst getSizeof_primitive [where k = Int64])
       (simp_all add: ex_W1_fields new_simps primsize_new)
  show ?thesis
    by (subst getSizeof_union [where s = "\<lparr>isunion = True, alignment = 8, s_name = ''W'',
      members = [\<lparr>m_name = ''big'', m_type = ''int64'', offset = 0, arrsize = 536870912\<rparr>]\<rparr>"])
       (simp_all add: ex_W1_fields new_simps a64 arrcount_def wrap_def)
qed

lemma ex_N_fields:
  "primitives ex_N = primitives (TypeManager_new 8)"
  "types ex_N = Map.empty"
  "structs ex_N = [''N'' \<mapsto> \<lparr>isunion = False, alignment = - 1, s_name = ''N'',
      members = [\<lparr>m_name = ''x'', m_type = ''int32'', offset = - 2147483644, arrsize = - 1\<rparr>]\<rparr>]"
  "primsize ex_N k = primsize (TypeManager_new 8) k"
  by (simp_all add: ex_N_def AddStruct_s_def Let_def isDefined_def mapContains_def
      map_insert_def new_simps)

lemma Sizeof_ex_N: "getSizeof ex_N ''N'' 0 = None"
proof -
  have a32: "getSizeof ex_N ''int32'' 1 = Some (4, 0)"
    by (subst getSizeof_primitive [where k = Int32])
       (simp_all add: ex_N_fields new_simps primsize_new)
  show ?thesis
    by (subst getSizeof_struct [where s = "\<lparr>isunion = False, alignment = - 1, s_name = ''N'',
      members = [\<lparr>m_name = ''x'', m_type = ''int32'', offset = - 2147483644, arrsize = - 1\<rparr>]\<rparr>"])
       (simp_all add: ex_N_fields new_simps a32 arrcount_def alignSize_def wrap_def rem_def
          INT_MIN_def)
qed

lemma ex_CZ_fields:
  "primitives ex_CZ = primitives (TypeManager_new 8)"
  "types ex_CZ = Map.empty"
  "structs ex_CZ =
     [''C'' \<mapsto> \<lparr>isunion = False, alignment = 8, s_name = ''C'',
           members = [\<lparr>m_name = ''self'', m_type = ''C'', offset = 0, arrsize = 0\<rparr>]\<rparr>,
      ''Z'' \<mapsto> \<lparr>isunion = False, alignment = 0, s_name = ''Z'',
           members = [\<lparr>m_name = ''x'', m_type = ''int32'', offset = 0, arrsize = 0\<rparr>]\<rparr>]"
  "primsize ex_CZ k = primsize (TypeManager_new 8) k"
  by (simp_all add: ex_CZ_def AddStruct_s_def Let_def isDefined_def mapContains_def
      map_insert_def ex_C1_fields new_simps)

lemma Sizeof_ex_CZ: "getSizeof ex_CZ ''Z'' 0 = None"
proof -
  have a32: "getSizeof ex_CZ ''int32'' 1 = Some (4, 0)"
    by (subst getSizeof_primitive [where k = Int32])
       (simp_all add: ex_CZ_fields new_simps primsize_new)
  show ?thesis
    by (subst getSizeof_struct [where s = "\<lparr>isunion = False, alignment = 0, s_name = ''Z'',
           members = [\<lparr>m_name = ''x'', m_type = ''int32'', offset = 0, arrsize = 0\<rparr>]\<rparr>"])
       (simp_all add: ex_CZ_fields new_simps a32 arrcount_def alignSize_def wrap_def rem_def)
qed

lemma not_aligned:
  "structs st n = Some s \<Longrightarrow> alignment s = 0 \<or> alignment s = - 1 \<Longrightarrow> \<not> aligned st"
  by (auto simp add: aligned_def)

lemma not_aligned_ex_CZ: "\<not> aligned ex_CZ"
proof -
  have "structs ex_CZ ''Z'' = Some \<lparr>isunion = False, alignment = 0, s_name = ''Z'',
           members = [\<lparr>m_name = ''x'', m_type = ''int32'', offset = 0, arrsize = 0\<rparr>]\<rparr>"
    by (simp add: ex_CZ_fields)
  then show ?thesis by (rule not_aligned) simp
qed

lemma not_aligned_ex_N: "\<not> aligned ex_N"
proof -
  have "structs ex_N ''N'' = Some \<lparr>isunion = False, alignment = - 1, s_name = ''N'',
      members = [\<lparr>m_name = ''x'', m_type = ''int32'', offset = - 2147483644, arrsize = - 1\<rparr>]\<rparr>"
    by (simp add: ex_N_fields)
  then show ?thesis by (rule not_aligned) simp
qed

lemma reachable_width:
  "reachable ptr st \<Longrightarrow> primitives st t = Some k \<Longrightarrow> depth < 100 \<Longrightarrow>
   getSizeof st t depth = Some (primsize (TypeManager_new ptr) k sdiv 8, 0)"
  by (simp add: getSizeof_primitive reachable_primsize)

lemma reachable_spelling:
  "reachable ptr st \<Longrightarrow> primitives st t = primitives (TypeManager_new ptr) t"
  by (simp add: reachable_primitives)

lemma first_member:
  assumes r: "reachable ptr st" and s: "structs st n = Some s" and e: "members s = []"
    and p: "primitives (TypeManager_new ptr) t = Some k"
  shows "AddMember st n name t (-1) 0 =
     Some (True, push_member st n s \<lparr>m_name = name, m_type = t, offset = 0, arrsize = 0\<rparr>)"
proof -
  have np: "primitives st n = None \<and> types st n = None"
    by (rule reachable_struct_name [OF r s])
  have 1: "getSizeof st n 0 = Some (0, 0)"
    using np s e by (simp add: getSizeof_no_members)
  have pt: "primitives st t = Some k"
    using p by (simp add: reachable_spelling [OF r])
  have 2: "Sizeof st t = Some (primsize (TypeManager_new ptr) k sdiv 8)"
    by (simp add: Sizeof_def reachable_width [OF r pt])
  have 3: "isDefined st t"
    using pt by (simp add: isDefined_def mapContains_def)
  show ?thesis
    using AddMember_auto [OF s _ 3 _ _ 1 _ 2, of 0 name "-1"] e by simp
qed

lemma ex_U0_eq:
  "ex_U0 = (TypeManager_new 8)\<lparr>laststruct := ''U'',
     structs := [''U'' \<mapsto> \<lparr>isunion = True, alignment = 8, s_name = ''U'', members = []\<rparr>]\<rparr>"
proof -
  have "\<not> isDefined (TypeManager_new 8) ''U''"
    by (simp add: not_isDefined_iff new_simps)
  then show ?thesis by (simp add: ex_U0_def AddUnion_fresh new_simps)
qed

lemma ex_V0_eq:
  "ex_V0 = (TypeManager_new 8)\<lparr>laststruct := ''V'',
     structs := [''V'' \<mapsto> \<lparr>isunion = True, alignment = 4, s_name = ''V'', members = []\<rparr>]\<rparr>"
proof -
  have "\<not> isDefined (TypeManager_new 8) ''V''"
    by (simp add: not_isDefined_iff new_simps)
  then show ?thesis by (simp add: ex_V0_def AddUnion_fresh new_simps)
qed

lemma reachable_ex_U0: "reachable 8 ex_U0"
  unfolding ex_U0_def by (rule r_AddUnion [OF reachable_new8])

lemma reachable_ex_V0: "reachable 8 ex_V0"
  unfolding ex_V0_def by (rule r_AddUnion [OF reachable_new8])

lemma AddMember_ex_U0:
  "AddMember ex_U0 ''U'' ''a'' ''int8'' (-1) 0 =
     Some (True, push_member ex_U0 ''U'' \<lparr>isunion = True, alignment = 8, s_name = ''U'', members = []\<rparr>
        \<lparr>m_name = ''a'', m_type = ''int8'', offset = 0, arrsize = 0\<rparr>)"
  by (rule first_member [OF reachable_ex_U0, where k = Int8]) (simp_all add: ex_U0_eq new_simps)

lemma AddMember_ex_V0:
  "AddMember ex_V0 ''V'' ''b'' ''int32'' (-1) 0 =
     Some (True, push_member ex_V0 ''V'' \<lparr>isunion = True, alignment = 4, s_name = ''V'', members = []\<rparr>
        \<lparr>m_name = ''b'', m_type = ''int32'', offset = 0, arrsize = 0\<rparr>)"
  by (rule first_member [OF reachable_ex_V0, where k = Int32]) (simp_all add: ex_V0_eq new_simps)

lemma reachable_ex_U1: "reachable 8 ex_U1"
  using r_AddMember [OF reachable_ex_U0 AddMember_ex_U0] by (simp add: ex_U1_def AddMember_ex_U0)

lemma reachable_ex_V1: "reachable 8 ex_V1"
  using r_AddMember [OF reachable_ex_V0 AddMember_ex_V0] by (simp add: ex_V1_def AddMember_ex_V0)

lemma ex_U1_structs:
  "structs ex_U1 = [''U'' \<mapsto> \<lparr>isunion = True, alignment = 8, s_name = ''U'',
      members = [\<lparr>m_name = ''a'', m_type = ''int8'', offset = 0, arrsize = 0\<rparr>]\<rparr>]"
  unfolding ex_U1_def AddMember_ex_U0 by (simp add: push_member_fields ex_U0_eq new_simps)

lemma ex_V1_structs:
  "structs ex_V1 = [''V'' \<mapsto> \<lparr>isunion = True, alignment = 4, s_name = ''V'',
      members = [\<lparr>m_name = ''b'', m_type = ''int32'', offset = 0, arrsize = 0\<rparr>]\<rparr>]"
  unfolding ex_V1_def AddMember_ex_V0 by (simp add: push_member_fields ex_V0_eq new_simps)

lemma int_spellings:
  "primitives (TypeManager_new ptr) ''int8'' = Some Int8"
  "primitives (TypeManager_new ptr) ''int32'' = Some Int32"
  by (simp_all add: primitives_new)

lemma AddMember_ex_U1:
  "AddMember ex_U1 ''U'' ''b'' ''int32'' (-1) 0 =
     Some (True, push_member ex_U1 ''U'' \<lparr>isunion = True, alignment = 8, s_name = ''U'',
        members = [\<lparr>m_name = ''a'', m_type = ''int8'', offset = 0, arrsize = 0\<rparr>]\<rparr>
        \<lparr>m_name = ''b'', m_type = ''int32'', offset = 1, arrsize = 0\<rparr>)"
proof -
  let ?s = "\<lparr>isunion = True, alignment = 8, s_name = ''U'',
        members = [\<lparr>m_name = ''a'', m_type = ''int8'', offset = 0, arrsize = 0\<rparr>]\<rparr>"
  note r = reachable_ex_U1
  have s: "structs ex_U1 ''U'' = Some ?s" by (simp add: ex_U1_structs)
  have p: "primitives ex_U1 ''int8'' = Some Int8" "primitives ex_U1 ''int32'' = Some Int32"
    by (simp_all add: reachable_spelling [OF r] int_spellings)
  have a: "getSizeof ex_U1 ''int8'' 1 = Some (1, 0)"
    by (simp add: reachable_width [OF r p(1)] primsize_new)
  have 1: "getSizeof ex_U1 ''U'' 0 = Some (8, 7)"
    using reachable_struct_name [OF r s]
    by (subst getSizeof_union [where s = ?s])
       (simp_all add: s a arrcount_def alignSize_def int_simps)
  have 2: "Sizeof ex_U1 ''int32'' = Some 4"
    by (simp add: Sizeof_def reachable_width [OF r p(2)] primsize_new)
  have 3: "isDefined ex_U1 ''int32''"
    using p by (simp add: isDefined_def mapContains_def)
  show ?thesis
    using AddMember_auto [OF s _ 3 _ _ 1 _ 2, of 0 "''b''" "-1"] by (simp add: wrap_def)
qed

lemma AddMember_ex_V1:
  "AddMember ex_V1 ''V'' ''a'' ''int8'' (-1) 0 =
     Some (True, push_member ex_V1 ''V'' \<lparr>isunion = True, alignment = 4, s_name = ''V'',
        members = [\<lparr>m_name = ''b'', m_type = ''int32'', offset = 0, arrsize = 0\<rparr>]\<rparr>
        \<lparr>m_name = ''a'', m_type = ''int8'', offset = 4, arrsize = 0\<rparr>)"
proof -
  let ?s = "\<lparr>isunion = True, alignment = 4, s_name = ''V'',
        members = [\<lparr>m_name = ''b'', m_type = ''int32'', offset = 0, arrsize = 0\<rparr>]\<rparr>"
  note r = reachable_ex_V1
  have s: "structs ex_V1 ''V'' = Some ?s" by (simp add: ex_V1_structs)
  have p: "primitives ex_V1 ''int8'' = Some Int8" "primitives ex_V1 ''int32'' = Some Int32"
    by (simp_all add: reachable_spelling [OF r] int_spellings)
  have a: "getSizeof ex_V1 ''int32'' 1 = Some (4, 0)"
    by (simp add: reachable_width [OF r p(2)] primsize_new)
  have 1: "getSizeof ex_V1 ''V'' 0 = Some (4, 0)"
    using reachable_struct_name [OF r s]
    by (subst getSizeof_union [where s = ?s])
       (simp_all add: s a arrcount_def alignSize_def int_simps)
  have 2: "Sizeof ex_V1 ''int8'' = Some 1"
    by (simp add: Sizeof_def reachable_width [OF r p(1)] primsize_new)
  have 3: "isDefined ex_V1 ''int8''"
    using p by (simp add: isDefined_def mapContains_def)
  show ?thesis
    using AddMember_auto [OF s _ 3 _ _ 1 _ 2, of 0 "''a''" "-1"] by simp
qed

lemma reachable_ex_U2: "reachable 8 ex_U2"
  using r_AddMember [OF reachable_ex_U1 AddMember_ex_U1] by (simp add: ex_U2_def AddMember_ex_U1)

lemma reachable_ex_V2: "reachable 8 ex_V2"
  using r_AddMember [OF reachable_ex_V1 AddMember_ex_V1] by (simp add: ex_V2_def AddMember_ex_V1)

lemma ex_U2_structs:
  "structs ex_U2 = [''U'' \<mapsto> \<lparr>isunion = True, alignment = 8, s_name = ''U'',
      members = [\<lparr>m_name = ''a'', m_type = ''int8'', offset = 0, arrsize = 0\<rparr>,
                 \<lparr>m_name = ''b'', m_type = ''int32'', offset = 1, arrsize = 0\<rparr>]\<rparr>]"
  unfolding ex_U2_def AddMember_ex_U1 by (simp add: push_member_fields ex_U1_structs)

lemma ex_V2_structs:
  "structs ex_V2 = [''V'' \<mapsto> \<lparr>isunion = True, alignment = 4, s_name = ''V'',
      members = [\<lparr>m_name = ''b'', m_type = ''int32'', offset = 0, arrsize = 0\<rparr>,
                 \<lparr>m_name = ''a'', m_type = ''int8'', offset = 4, arrsize = 0\<rparr>]\<rparr>]"
  unfolding ex_V2_def AddMember_ex_V1 by (simp add: push_member_fields ex_V1_structs)

lemma dvd_between: "(8::int) dvd r \<Longrightarrow> 4 \<le> r \<Longrightarrow> r < 12 \<Longrightarrow> r = 8"
  by presburger

section \<open>The claims\<close>

text \<open>
  C1. In a state of the class, \<^verbatim>\<open>Sizeof\<close> of a union of positive alignment (an
  \<^verbatim>\<open>int\<close>: at most \<open>INT_MAX\<close>) with two scalar members of the kinds int8 and int32, in
  either order, is 4 rounded up to the next multiple of the alignment of the union; it is
  4 exactly when the alignment divides 4. In every state, for a union of positive
  alignment whose members have a non-negative array count and a positive resolved size,
  when every product (resolved size \<open>\<times>\<close> max(1, array count)) is at most \<open>INT_MAX\<close>
  and some multiple of the alignment from the maximum of the products on is at most
  \<open>INT_MAX\<close>, \<^verbatim>\<open>Sizeof\<close> is the maximum of the products rounded up to the next
  multiple of the alignment. Beyond \<open>INT_MAX\<close> the products and the sum wrap around:
  the union \<open>W\<close> of \<open>ex_W1\<close>, an array of 536870912 int64, has the \<^verbatim>\<open>Sizeof\<close> 0.
\<close>

theorem union_size_rounded_max:
  "(primitives st n = None \<and> types st n = None \<and> structs st n = Some s \<and> isunion s
      \<and> members s \<noteq> [] \<and> 0 < alignment s
      \<and> (\<forall>m\<in>set (members s). 0 \<le> arrsize m
            \<and> (\<exists>sz pad. getSizeof st (m_type m) 1 = Some (sz, pad) \<and> 0 < sz
                  \<and> f m = sz * max 1 (arrsize m) \<and> f m \<le> INT_MAX))
      \<and> (\<exists>q. alignment s dvd q \<and> Max (f ` set (members s)) \<le> q \<and> q \<le> INT_MAX)
    \<longrightarrow> (\<exists>r. Sizeof st n = Some r \<and> alignment s dvd r
           \<and> Max (f ` set (members s)) \<le> r \<and> r < Max (f ` set (members s)) + alignment s))
   \<and> (reachable ptr st \<and> structs st n = Some s \<and> isunion s
      \<and> 0 < alignment s \<and> alignment s \<le> INT_MAX
      \<and> members s = [ma, mb] \<and> arrsize ma = 0 \<and> arrsize mb = 0
      \<and> (primitives st (m_type ma) = Some Int8 \<and> primitives st (m_type mb) = Some Int32
          \<or> primitives st (m_type ma) = Some Int32 \<and> primitives st (m_type mb) = Some Int8)
    \<longrightarrow> (\<exists>r. Sizeof st n = Some r \<and> alignment s dvd r \<and> 4 \<le> r \<and> r < 4 + alignment s
           \<and> ((r = 4) = (alignment s dvd 4))))"
proof (intro conjI impI)
  let ?M = "Max (f ` set (members s))"
  assume h: "primitives st n = None \<and> types st n = None \<and> structs st n = Some s \<and> isunion s
      \<and> members s \<noteq> [] \<and> 0 < alignment s
      \<and> (\<forall>m\<in>set (members s). 0 \<le> arrsize m
            \<and> (\<exists>sz pad. getSizeof st (m_type m) 1 = Some (sz, pad) \<and> 0 < sz
                  \<and> f m = sz * max 1 (arrsize m) \<and> f m \<le> INT_MAX))
      \<and> (\<exists>q. alignment s dvd q \<and> ?M \<le> q \<and> q \<le> INT_MAX)"
  then have a: "0 < alignment s" by simp
  from h obtain q where q: "alignment s dvd q" "?M \<le> q" "q \<le> INT_MAX" by blast
  have fit: "round_up (alignment s) ?M \<le> INT_MAX"
    using round_up_least [OF a q(1) q(2)] q(3) by simp
  from h have np: "primitives st n = None" and nt: "types st n = None"
    and s: "structs st n = Some s" and u: "isunion s" and ne: "members s \<noteq> []"
    and ms: "\<forall>m\<in>set (members s). 0 \<le> arrsize m
            \<and> (\<exists>sz pad. getSizeof st (m_type m) 1 = Some (sz, pad) \<and> 0 < sz
                  \<and> f m = sz * max 1 (arrsize m) \<and> f m \<le> INT_MAX)"
    by simp_all
  have "Sizeof st n = Some (round_up (alignment s) ?M)"
    by (rule union_size_general [OF np nt s u ne a ms fit])
  then show "\<exists>r. Sizeof st n = Some r \<and> alignment s dvd r \<and> ?M \<le> r \<and> r < ?M + alignment s"
    using round_up_bounds [OF a, of ?M] by simp
next
  assume h: "reachable ptr st \<and> structs st n = Some s \<and> isunion s
      \<and> 0 < alignment s \<and> alignment s \<le> INT_MAX
      \<and> members s = [ma, mb] \<and> arrsize ma = 0 \<and> arrsize mb = 0
      \<and> (primitives st (m_type ma) = Some Int8 \<and> primitives st (m_type mb) = Some Int32
          \<or> primitives st (m_type ma) = Some Int32 \<and> primitives st (m_type mb) = Some Int8)"
  then have a: "0 < alignment s" by simp
  from h have r: "reachable ptr st" and s: "structs st n = Some s" and u: "isunion s"
    and b: "alignment s \<le> INT_MAX" and ms: "members s = [ma, mb]"
    and sc: "arrsize ma = 0" "arrsize mb = 0"
    and k: "(primitives st (m_type ma) = Some Int8 \<and> primitives st (m_type mb) = Some Int32)
          \<or> (primitives st (m_type ma) = Some Int32 \<and> primitives st (m_type mb) = Some Int8)"
    by simp_all
  have 1: "Sizeof st n = Some (round_up (alignment s) 4)"
    by (rule union_int8_int32(1) [OF r s u a b ms sc k])
  have 2: "(round_up (alignment s) 4 = 4) = (alignment s dvd 4)"
    by (rule union_int8_int32(2) [OF r s u a b ms sc k])
  show "\<exists>r. Sizeof st n = Some r \<and> alignment s dvd r \<and> 4 \<le> r \<and> r < 4 + alignment s
           \<and> ((r = 4) = (alignment s dvd 4))"
    using 1 2 round_up_bounds [OF a, of 4] by simp
qed

theorem union_size_rounded_max_witness:
  "reachable 8 ex_U2 \<and> reachable 8 ex_V2
   \<and> structs ex_U2 ''U'' = Some \<lparr>isunion = True, alignment = 8, s_name = ''U'',
      members = [\<lparr>m_name = ''a'', m_type = ''int8'', offset = 0, arrsize = 0\<rparr>,
                 \<lparr>m_name = ''b'', m_type = ''int32'', offset = 1, arrsize = 0\<rparr>]\<rparr>
   \<and> structs ex_V2 ''V'' = Some \<lparr>isunion = True, alignment = 4, s_name = ''V'',
      members = [\<lparr>m_name = ''b'', m_type = ''int32'', offset = 0, arrsize = 0\<rparr>,
                 \<lparr>m_name = ''a'', m_type = ''int8'', offset = 4, arrsize = 0\<rparr>]\<rparr>
   \<and> primitives ex_U2 ''int8'' = Some Int8 \<and> primitives ex_U2 ''int32'' = Some Int32
   \<and> primitives ex_V2 ''int8'' = Some Int8 \<and> primitives ex_V2 ''int32'' = Some Int32
   \<and> getSizeof ex_V2 ''int8'' 1 = Some (1, 0) \<and> getSizeof ex_V2 ''int32'' 1 = Some (4, 0)
   \<and> (8::int) \<le> INT_MAX \<and> (4::int) dvd 4 \<and> (4::int) \<le> INT_MAX
   \<and> Sizeof ex_U2 ''U'' = Some 8 \<and> Sizeof ex_V2 ''V'' = Some 4
   \<and> structs ex_W1 ''W'' = Some \<lparr>isunion = True, alignment = 8, s_name = ''W'',
      members = [\<lparr>m_name = ''big'', m_type = ''int64'', offset = 0, arrsize = 536870912\<rparr>]\<rparr>
   \<and> Sizeof ex_W1 ''int64'' = Some 8 \<and> INT_MAX < 8 * 536870912
   \<and> Sizeof ex_W1 ''W'' = Some 0"
proof -
  let ?a = "\<lparr>m_name = ''a'', m_type = ''int8'', offset = 0, arrsize = 0\<rparr>"
  let ?b = "\<lparr>m_name = ''b'', m_type = ''int32'', offset = 1, arrsize = 0\<rparr>"
  let ?U = "\<lparr>isunion = True, alignment = 8, s_name = ''U'', members = [?a, ?b]\<rparr>"
  let ?b' = "\<lparr>m_name = ''b'', m_type = ''int32'', offset = 0, arrsize = 0\<rparr>"
  let ?a' = "\<lparr>m_name = ''a'', m_type = ''int8'', offset = 4, arrsize = 0\<rparr>"
  let ?V = "\<lparr>isunion = True, alignment = 4, s_name = ''V'', members = [?b', ?a']\<rparr>"
  let ?f = "\<lambda>m. if m_type m = ''int8'' then 1 else (4::int)"
  note T = union_size_rounded_max
  note ru = reachable_ex_U2 and rv = reachable_ex_V2
  have su: "structs ex_U2 ''U'' = Some ?U" and sv: "structs ex_V2 ''V'' = Some ?V"
    by (simp_all add: ex_U2_structs ex_V2_structs)
  have pu: "primitives ex_U2 ''int8'' = Some Int8" "primitives ex_U2 ''int32'' = Some Int32"
    and pv: "primitives ex_V2 ''int8'' = Some Int8" "primitives ex_V2 ''int32'' = Some Int32"
    by (simp_all add: reachable_spelling [OF ru] reachable_spelling [OF rv] int_spellings)
  have gv: "getSizeof ex_V2 ''int8'' 1 = Some (1, 0)" "getSizeof ex_V2 ''int32'' 1 = Some (4, 0)"
    by (simp_all add: reachable_width [OF rv pv(1)] reachable_width [OF rv pv(2)] primsize_new)
  have im: "(8::int) \<le> INT_MAX" "(4::int) \<le> INT_MAX" "(1::int) \<le> INT_MAX"
    by (simp_all add: INT_MAX_def)
  have "\<exists>r. Sizeof ex_U2 ''U'' = Some r \<and> alignment ?U dvd r \<and> 4 \<le> r \<and> r < 4 + alignment ?U
           \<and> ((r = 4) = (alignment ?U dvd 4))"
    using T [of ex_U2 "''U''" ?U _ 8 ?a ?b, THEN conjunct2] ru su pu im
    by simp
  then have 1: "Sizeof ex_U2 ''U'' = Some 8"
    by (auto dest: dvd_between)
  have q: "\<exists>q. alignment ?V dvd q \<and> Max (?f ` set (members ?V)) \<le> q \<and> q \<le> INT_MAX"
    using im by (intro exI [of _ 4]) simp
  have "\<exists>r. Sizeof ex_V2 ''V'' = Some r \<and> alignment ?V dvd r
           \<and> Max (?f ` set (members ?V)) \<le> r \<and> r < Max (?f ` set (members ?V)) + alignment ?V"
    using T [of ex_V2 "''V''" ?V ?f, THEN conjunct1] reachable_struct_name [OF rv sv] sv gv im q
    by simp
  then obtain r where r: "Sizeof ex_V2 ''V'' = Some r" "4 dvd r" "4 \<le> r" "r < 8"
    by auto
  then have "r = 4" by presburger
  with r have 2: "Sizeof ex_V2 ''V'' = Some 4" by simp
  have sw: "structs ex_W1 ''W'' = Some \<lparr>isunion = True, alignment = 8, s_name = ''W'',
      members = [\<lparr>m_name = ''big'', m_type = ''int64'', offset = 0, arrsize = 536870912\<rparr>]\<rparr>"
    by (simp add: ex_W1_fields)
  have w64: "Sizeof ex_W1 ''int64'' = Some 8"
    unfolding Sizeof_def
    by (subst getSizeof_primitive [where k = Int64])
       (simp_all add: ex_W1_fields new_simps primsize_new)
  have big: "INT_MAX < 8 * 536870912"
    by (simp add: INT_MAX_def)
  have 3: "Sizeof ex_W1 ''W'' = Some 0"
    by (simp add: Sizeof_def Sizeof_ex_W1)
  show ?thesis
    using ru rv su sv pu pv gv im 1 2 sw w64 big 3 by simp
qed

text \<open>
  C1 as stated fails in \<open>ex_U2\<close>: the union \<open>U\<close> of an int8 and an int32 has the
  default alignment of a 64-bit target, and its \<^verbatim>\<open>Sizeof\<close> is 8.
\<close>

theorem union_int8_int32_sizeof_8:
  "structs ex_U2 ''U'' = Some \<lparr>isunion = True, alignment = 8, s_name = ''U'',
      members = [\<lparr>m_name = ''a'', m_type = ''int8'', offset = 0, arrsize = 0\<rparr>,
                 \<lparr>m_name = ''b'', m_type = ''int32'', offset = 1, arrsize = 0\<rparr>]\<rparr>
   \<and> Sizeof ex_U2 ''int8'' = Some 1 \<and> Sizeof ex_U2 ''int32'' = Some 4
   \<and> Sizeof ex_U2 ''U'' = Some 8 \<and> Sizeof ex_U2 ''U'' \<noteq> Some 4"
proof -
  let ?a = "\<lparr>m_name = ''a'', m_type = ''int8'', offset = 0, arrsize = 0\<rparr>"
  let ?b = "\<lparr>m_name = ''b'', m_type = ''int32'', offset = 1, arrsize = 0\<rparr>"
  let ?U = "\<lparr>isunion = True, alignment = 8, s_name = ''U'', members = [?a, ?b]\<rparr>"
  note r = reachable_ex_U2
  have s: "structs ex_U2 ''U'' = Some ?U" by (simp add: ex_U2_structs)
  have p: "primitives ex_U2 ''int8'' = Some Int8" "primitives ex_U2 ''int32'' = Some Int32"
    by (simp_all add: reachable_spelling [OF r] int_spellings)
  have g: "\<And>d. d < 100 \<Longrightarrow> getSizeof ex_U2 ''int8'' d = Some (1, 0)"
    "\<And>d. d < 100 \<Longrightarrow> getSizeof ex_U2 ''int32'' d = Some (4, 0)"
    by (simp_all add: reachable_width [OF r p(1)] reachable_width [OF r p(2)] primsize_new)
  have "getSizeof ex_U2 ''U'' 0 = Some (8, 4)"
    using reachable_struct_name [OF r s]
    by (subst getSizeof_union [where s = ?U])
       (simp_all add: s g arrcount_def alignSize_def int_simps)
  then show ?thesis
    using s g by (simp add: Sizeof_def)
qed

text \<open>
  C2. A call of \<^verbatim>\<open>AddType(const Type &)\<close>, \<^verbatim>\<open>AddType(name, spelling)\<close>,
  \<^verbatim>\<open>AddMember\<close> (both overloads) or \<^verbatim>\<open>AppendMember\<close> that returns false leaves
  the state as it was. A call of \<^verbatim>\<open>AddType(name, kind, bitsize, pointto)\<close> that
  returns false leaves the spellings, the types, the aggregates, the current aggregate and
  the width read for every kind as they were; when the name was free it may have added
  the entry 0 to \<open>primitivesizes\<close> for a kind that had none, which in a state of the
  class is the kind \<open>Uint16\<close> only. A call of \<^verbatim>\<open>AddStruct\<close> or
  \<^verbatim>\<open>AddUnion\<close> (either overload) that returns false changes \<open>laststruct\<close> to the
  requested name and nothing else. A definition call with a name that is already defined
  returns false, with these effects.
\<close>

theorem failed_call_effects:
  "(AddType_t st t = (False, st') \<longrightarrow> st' = st)
   \<and> (AddType_spelling st name spelling = (False, st') \<longrightarrow> st' = st)
   \<and> (AddType st name prim bits pto = (False, st') \<longrightarrow>
        (st' = st
         \<or> (\<not> isDefined st name \<and> primitivesizes st prim = None
             \<and> st' = st\<lparr>primitivesizes := (primitivesizes st)(prim \<mapsto> 0)\<rparr>))
        \<and> primitives st' = primitives st \<and> types st' = types st \<and> structs st' = structs st
        \<and> laststruct st' = laststruct st \<and> (\<forall>k. primsize st' k = primsize st k))
   \<and> (AddStruct ptr st name align = (False, st') \<longrightarrow> st' = st\<lparr>laststruct := name\<rparr>)
   \<and> (AddStruct_s st s = (False, st') \<longrightarrow> st' = st\<lparr>laststruct := s_name s\<rparr>)
   \<and> (AddUnion ptr st name align = (False, st') \<longrightarrow> st' = st\<lparr>laststruct := name\<rparr>)
   \<and> (AddUnion_u st s = (False, st') \<longrightarrow> st' = st\<lparr>laststruct := s_name s\<rparr>)
   \<and> (AddMember st parent name type offs arr = Some (False, st') \<longrightarrow> st' = st)
   \<and> (AppendMember st name type offs arr = Some (False, st') \<longrightarrow> st' = st)
   \<and> (AddMember_m st parent member = (False, st') \<longrightarrow> st' = st)
   \<and> (isDefined st name \<longrightarrow>
        AddType st name prim bits pto = (False, st)
      \<and> AddType_spelling st name spelling = (False, st)
      \<and> AddType_t st (t\<lparr>t_name := name\<rparr>) = (False, st)
      \<and> AddStruct ptr st name align = (False, st\<lparr>laststruct := name\<rparr>)
      \<and> AddUnion ptr st name align = (False, st\<lparr>laststruct := name\<rparr>))
   \<and> (reachable ptr st \<and> prim \<noteq> Uint16 \<and> AddType st name prim bits pto = (False, st') \<longrightarrow>
        st' = st)"
proof (intro conjI impI allI)
  assume "reachable ptr st \<and> prim \<noteq> Uint16 \<and> AddType st name prim bits pto = (False, st')"
  then have r: "reachable ptr st" and k: "prim \<noteq> Uint16"
    and a: "AddType st name prim bits pto = (False, st')"
    by simp_all
  from AddType_False [OF a] reachable_touch [OF r k] show "st' = st"
    by auto
next
  assume a: "AddType st name prim bits pto = (False, st')"
  from AddType_False [OF a] touch_primsize_cases [of st prim]
  show "st' = st
         \<or> (\<not> isDefined st name \<and> primitivesizes st prim = None
             \<and> st' = st\<lparr>primitivesizes := (primitivesizes st)(prim \<mapsto> 0)\<rparr>)"
    by auto
  from AddType_False [OF a]
  show "primitives st' = primitives st" "types st' = types st" "structs st' = structs st"
    "laststruct st' = laststruct st"
    by (auto simp add: touch_primsize_fields)
  fix k
  from AddType_False [OF a] show "primsize st' k = primsize st k"
    by (auto simp add: primsize_touch)
next
  assume "isDefined st name"
  then show "AddType_spelling st name spelling = (False, st)"
    and "AddType st name prim bits pto = (False, st)"
    and "AddType_t st (t\<lparr>t_name := name\<rparr>) = (False, st)"
    by (simp_all add: AddType_spelling_def AddType_def AddType_t_def split: option.splits)
qed (auto simp add: AddStruct_defined AddUnion_defined AppendMember_def
      dest: AddType_t_False AddType_spelling_False AddStruct_False AddStruct_s_False
        AddUnion_False AddUnion_u_False AddMember_False AddMember_m_False)

theorem failed_call_effects_witness:
  "reachable 8 ex_S1 \<and> isDefined ex_S1 ''S'' \<and> isDefined ex_S1 ''int''
   \<and> AddType_t ex_S1 \<lparr>t_name = ''S'', primitive = Int8, bitsize = 8, pointto = []\<rparr> = (False, ex_S1)
   \<and> AddType_spelling ex_S1 ''x'' ''nosuch'' = (False, ex_S1)
   \<and> AddType ex_S1 ''y'' Int32 40 [] = (False, ex_S1)
   \<and> AddType ex_S1 ''y'' Uint16 8 [] =
       (False, ex_S1\<lparr>primitivesizes := (primitivesizes ex_S1)(Uint16 \<mapsto> 0)\<rparr>)
   \<and> AddType ex_S1 ''int'' Int32 16 [] = (False, ex_S1)
   \<and> AddStruct 8 ex_S1 ''int'' 0 = (False, ex_S1\<lparr>laststruct := ''int''\<rparr>)
   \<and> AddUnion 8 ex_S1 ''int'' 0 = (False, ex_S1\<lparr>laststruct := ''int''\<rparr>)
   \<and> AddStruct_s ex_S1 \<lparr>isunion = False, alignment = 0, s_name = ''int'', members = []\<rparr> =
       (False, ex_S1\<lparr>laststruct := ''int''\<rparr>)
   \<and> AddUnion_u ex_S1 \<lparr>isunion = True, alignment = 0, s_name = ''int'', members = []\<rparr> =
       (False, ex_S1\<lparr>laststruct := ''int''\<rparr>)
   \<and> AddMember ex_S1 ''S'' ''a'' ''int64'' (-1) 0 = Some (False, ex_S1)
   \<and> AppendMember ex_S1 ''a'' ''int64'' (-1) 0 = Some (False, ex_S1)
   \<and> AddMember_m ex_S1 ''T'' \<lparr>m_name = ''a'', m_type = ''int32'', offset = 0, arrsize = 0\<rparr> =
       (False, ex_S1)"
proof -
  let ?t = "\<lparr>t_name = ''S'', primitive = Int8, bitsize = 8, pointto = []\<rparr>"
  let ?s = "\<lparr>isunion = False, alignment = 0, s_name = ''int'', members = []\<rparr>"
  let ?u = "\<lparr>isunion = True, alignment = 0, s_name = ''int'', members = []\<rparr>"
  let ?m = "\<lparr>m_name = ''a'', m_type = ''int32'', offset = 0, arrsize = 0\<rparr>"
  let ?S1 = "\<lparr>isunion = False, alignment = 8, s_name = ''S'', members = [?m]\<rparr>"
  note T = failed_call_effects
  have dS: "isDefined ex_S1 ''S''" and dI: "isDefined ex_S1 ''int''"
    and nx: "\<not> isDefined ex_S1 ''x''" and ny: "\<not> isDefined ex_S1 ''y''"
    by (simp_all add: isDefined_def mapContains_def ex_S1_fields new_simps)
  have w: "primsize ex_S1 Int32 = 32" "primsize ex_S1 Uint16 = 0"
    "primitivesizes ex_S1 Int32 \<noteq> None" "primitivesizes ex_S1 Uint16 = None"
    by (simp_all add: ex_S1_fields new_simps primsize_new)
  have "\<not> fst (AddType_t ex_S1 ?t)"
    using dS by (simp add: AddType_t_def)
  from failed_pair [OF this] have 1: "AddType_t ex_S1 ?t = (False, ex_S1)"
    using T [THEN conjunct1,
        rule_format, of ex_S1 ?t "snd (AddType_t ex_S1 ?t)"] by simp
  have "\<not> fst (AddType_spelling ex_S1 ''x'' ''nosuch'')"
    by (simp add: AddType_spelling_def ex_S1_fields new_simps)
  from failed_pair [OF this] have 2: "AddType_spelling ex_S1 ''x'' ''nosuch'' = (False, ex_S1)"
    using T [THEN conjunct2, THEN conjunct1,
        rule_format, of ex_S1 "''x''" "''nosuch''" "snd (AddType_spelling ex_S1 ''x'' ''nosuch'')"] by simp
  have f3: "\<not> fst (AddType ex_S1 ''y'' Int32 40 [])"
    and f4: "\<not> fst (AddType ex_S1 ''y'' Uint16 8 [])"
    using ny w by (simp_all add: AddType_def Let_def)
  have 3: "AddType ex_S1 ''y'' Int32 40 [] = (False, ex_S1)"
    using T [THEN conjunct2, THEN conjunct2, THEN conjunct2, THEN conjunct2, THEN conjunct2,
        THEN conjunct2, THEN conjunct2, THEN conjunct2, THEN conjunct2, THEN conjunct2,
        THEN conjunct2, rule_format,
        of 8 ex_S1 Int32 "''y''" 40 "[]" "snd (AddType ex_S1 ''y'' Int32 40 [])"]
      failed_pair [OF f3] reachable_ex_S1
    by simp
  have ne2: "ex_S1\<lparr>primitivesizes := (primitivesizes ex_S1)(Uint16 \<mapsto> 0)\<rparr> \<noteq> ex_S1"
    using w by (auto dest: arg_cong [where f = "\<lambda>s. primitivesizes s Uint16"])
  have "snd (AddType ex_S1 ''y'' Uint16 8 []) =
      ex_S1\<lparr>primitivesizes := (primitivesizes ex_S1)(Uint16 \<mapsto> 0)\<rparr>"
    using ny w by (simp add: AddType_def Let_def touch_primsize_def)
  with ne2 have n4: "snd (AddType ex_S1 ''y'' Uint16 8 []) \<noteq> ex_S1"
    by simp
  have 4: "AddType ex_S1 ''y'' Uint16 8 [] =
       (False, ex_S1\<lparr>primitivesizes := (primitivesizes ex_S1)(Uint16 \<mapsto> 0)\<rparr>)"
    using T [THEN conjunct2, THEN conjunct2, THEN conjunct1, rule_format, of ex_S1 "''y''" Uint16 8 "[]" "snd (AddType ex_S1 ''y'' Uint16 8 [])"]
      failed_pair [OF f4] n4
    by auto
  note D = T [THEN conjunct2, THEN conjunct2, THEN conjunct2, THEN conjunct2,
      THEN conjunct2, THEN conjunct2, THEN conjunct2, THEN conjunct2, THEN conjunct2,
      THEN conjunct2, THEN conjunct1, rule_format, of ex_S1 "''int''", OF dI]
  from D [of Int32 16 "[]"] have 5: "AddType ex_S1 ''int'' Int32 16 [] = (False, ex_S1)"
    by simp
  from D [of _ _ _ _ _ 8 0] have 6: "AddStruct 8 ex_S1 ''int'' 0 = (False, ex_S1\<lparr>laststruct := ''int''\<rparr>)"
    and 7: "AddUnion 8 ex_S1 ''int'' 0 = (False, ex_S1\<lparr>laststruct := ''int''\<rparr>)"
    by simp_all
  have "\<not> fst (AddStruct_s ex_S1 ?s)"
    using dI by (simp add: AddStruct_s_def Let_def isDefined_laststruct)
  from failed_pair [OF this] have 8: "AddStruct_s ex_S1 ?s = (False, ex_S1\<lparr>laststruct := ''int''\<rparr>)"
    using T [THEN conjunct2, THEN conjunct2, THEN conjunct2, THEN conjunct2, THEN conjunct1,
        rule_format, of ex_S1 ?s "snd (AddStruct_s ex_S1 ?s)"] by simp
  have "\<not> fst (AddUnion_u ex_S1 ?u)"
    using dI by (simp add: AddUnion_u_def Let_def isDefined_laststruct)
  from failed_pair [OF this] have 9: "AddUnion_u ex_S1 ?u = (False, ex_S1\<lparr>laststruct := ''int''\<rparr>)"
    using T [THEN conjunct2, THEN conjunct2, THEN conjunct2, THEN conjunct2, THEN conjunct2,
        THEN conjunct2, THEN conjunct1,
        rule_format, of ex_S1 ?u "snd (AddUnion_u ex_S1 ?u)"] by simp
  have 10: "AddMember ex_S1 ''S'' ''a'' ''int64'' (-1) 0 = Some (False, ex_S1)"
    using AddMember_duplicate [of ex_S1 "''S''" ?S1 "''a''"] by (simp add: ex_S1_fields)
  have 11: "AppendMember ex_S1 ''a'' ''int64'' (-1) 0 = Some (False, ex_S1)"
    using 10 by (simp add: AppendMember_def ex_S1_fields)
  have "\<not> fst (AddMember_m ex_S1 ''T'' ?m)"
    by (simp add: AddMember_m_def ex_S1_fields)
  from failed_pair [OF this] have 12: "AddMember_m ex_S1 ''T'' ?m = (False, ex_S1)"
    using T [THEN conjunct2, THEN conjunct2, THEN conjunct2, THEN conjunct2, THEN conjunct2,
        THEN conjunct2, THEN conjunct2, THEN conjunct2, THEN conjunct2, THEN conjunct1,
        rule_format, of ex_S1 "''T''" ?m "snd (AddMember_m ex_S1 ''T'' ?m)"] by simp
  show ?thesis
    using reachable_ex_S1 dS dI 1 2 3 4 5 6 7 8 9 10 11 12 by simp
qed

text \<open>
  C2 as stated fails in \<open>ex_S1\<close>: \<^verbatim>\<open>AddStruct("int")\<close> and
  \<^verbatim>\<open>AddUnion("int")\<close> return false and rebind \<open>laststruct\<close> from \<open>S\<close> to \<open>int\<close>;
  \<^verbatim>\<open>AddType("y", Uint16, 8)\<close> returns false and leaves a new entry in
  \<open>primitivesizes\<close>.
\<close>

theorem failed_call_changes_state:
  "\<not> fst (AddStruct 8 ex_S1 ''int'' 0) \<and> snd (AddStruct 8 ex_S1 ''int'' 0) \<noteq> ex_S1
   \<and> laststruct ex_S1 = ''S'' \<and> laststruct (snd (AddStruct 8 ex_S1 ''int'' 0)) = ''int''
   \<and> \<not> fst (AddUnion 8 ex_S1 ''int'' 0) \<and> snd (AddUnion 8 ex_S1 ''int'' 0) \<noteq> ex_S1
   \<and> \<not> fst (AddType ex_S1 ''y'' Uint16 8 []) \<and> snd (AddType ex_S1 ''y'' Uint16 8 []) \<noteq> ex_S1
   \<and> primitivesizes ex_S1 Uint16 = None
   \<and> primitivesizes (snd (AddType ex_S1 ''y'' Uint16 8 [])) Uint16 = Some 0"
proof -
  have dI: "isDefined ex_S1 ''int''" and ny: "\<not> isDefined ex_S1 ''y''"
    by (simp_all add: isDefined_def mapContains_def ex_S1_fields new_simps)
  have w: "primsize ex_S1 Uint16 = 0" "primitivesizes ex_S1 Uint16 = None"
    by (simp_all add: ex_S1_fields new_simps primsize_new)
  have a: "AddStruct 8 ex_S1 ''int'' 0 = (False, ex_S1\<lparr>laststruct := ''int''\<rparr>)"
    and u: "AddUnion 8 ex_S1 ''int'' 0 = (False, ex_S1\<lparr>laststruct := ''int''\<rparr>)"
    by (simp_all add: AddStruct_defined AddUnion_defined dI)
  have l: "laststruct ex_S1 = ''S''" by (simp add: ex_S1_fields)
  have ne: "ex_S1\<lparr>laststruct := ''int''\<rparr> \<noteq> ex_S1"
    using l by (auto dest: arg_cong [where f = laststruct])
  have t: "AddType ex_S1 ''y'' Uint16 8 [] =
      (False, ex_S1\<lparr>primitivesizes := (primitivesizes ex_S1)(Uint16 \<mapsto> 0)\<rparr>)"
    using ny w by (simp add: AddType_def Let_def touch_primsize_def)
  have ne2: "ex_S1\<lparr>primitivesizes := (primitivesizes ex_S1)(Uint16 \<mapsto> 0)\<rparr> \<noteq> ex_S1"
    using w by (auto dest: arg_cong [where f = "\<lambda>s. primitivesizes s Uint16"])
  show ?thesis
    using a u l ne t ne2 w by simp
qed

text \<open>
  C3. When \<^verbatim>\<open>offset\<close> is omitted (negative) in \<^verbatim>\<open>AddMember\<close> or
  \<^verbatim>\<open>AppendMember\<close>, the offset of the new member is the size of the aggregate
  computed before the insertion, except that it is pulled back by the padding when that
  computation reports padding and the resolved size of the member's type is at most the
  padding. The subtraction is that of \<^verbatim>\<open>int\<close>: \<open>wrap\<close> of the difference, which is the
  difference when that is a value of \<^verbatim>\<open>int\<close>. In a state of the class, a new struct of
  alignment 8 takes the auto-offset member \<open>na\<close> of type int32 at offset 0, by
  \<^verbatim>\<open>AddMember\<close> and by \<^verbatim>\<open>AppendMember\<close> alike; its size is then 8 with 4 bytes of
  padding. A second auto-offset member \<open>nb\<close> of type int64, which the padding does
  not fit, is at offset 8, and \<^verbatim>\<open>Sizeof\<close> is 16. A second auto-offset member
  \<open>nb\<close> of type int8 instead is pulled back to offset 4, and \<^verbatim>\<open>Sizeof\<close> is 8.
\<close>

theorem auto_offset_packing:
  "(offs < 0 \<and> AddMember st parent name type offs arr = Some (True, st') \<longrightarrow>
      (\<exists>s sz pad typesize.
           structs st parent = Some s \<and> getSizeof st parent 0 = Some (sz, pad)
         \<and> Sizeof st type = Some typesize
         \<and> st' = st\<lparr>structs := (structs st)(parent \<mapsto> s\<lparr>members := members s @
               [\<lparr>m_name = name, m_type = type,
                 offset = (if pad \<noteq> 0 \<and> typesize \<le> pad then wrap (sz - pad) else sz),
                 arrsize = arr\<rparr>]\<rparr>)\<rparr>))
   \<and> (offs < 0 \<and> AppendMember st name type offs arr = Some (True, st') \<longrightarrow>
      (\<exists>s sz pad typesize.
           structs st (laststruct st) = Some s \<and> getSizeof st (laststruct st) 0 = Some (sz, pad)
         \<and> Sizeof st type = Some typesize
         \<and> st' = st\<lparr>structs := (structs st)(laststruct st \<mapsto> s\<lparr>members := members s @
               [\<lparr>m_name = name, m_type = type,
                 offset = (if pad \<noteq> 0 \<and> typesize \<le> pad then wrap (sz - pad) else sz),
                 arrsize = arr\<rparr>]\<rparr>)\<rparr>))
   \<and> (INT_MIN \<le> x \<and> x \<le> INT_MAX \<longrightarrow> wrap x = x)
   \<and> (reachable ptr st0 \<and> \<not> isDefined st0 sn \<and> na \<noteq> nb \<longrightarrow>
      (\<exists>st1 st2 st3 st4.
           AddStruct ptr st0 sn 8 = (True, st1)
         \<and> AddMember st1 sn na ''int32'' (-1) 0 = Some (True, st2)
         \<and> laststruct st1 = sn
         \<and> AppendMember st1 na ''int32'' (-1) 0 = Some (True, st2)
         \<and> laststruct st2 = sn \<and> getSizeof st2 sn 0 = Some (8, 4)
         \<and> Sizeof st2 ''int64'' = Some 8 \<and> Sizeof st2 ''int8'' = Some 1
         \<and> AddMember st2 sn nb ''int64'' (-1) 0 = Some (True, st3)
         \<and> AppendMember st2 nb ''int64'' (-1) 0 = Some (True, st3)
         \<and> map_option members (structs st3 sn) =
             Some [\<lparr>m_name = na, m_type = ''int32'', offset = 0, arrsize = 0\<rparr>,
                   \<lparr>m_name = nb, m_type = ''int64'', offset = 8, arrsize = 0\<rparr>]
         \<and> Sizeof st3 sn = Some 16
         \<and> AddMember st2 sn nb ''int8'' (-1) 0 = Some (True, st4)
         \<and> AppendMember st2 nb ''int8'' (-1) 0 = Some (True, st4)
         \<and> map_option members (structs st4 sn) =
             Some [\<lparr>m_name = na, m_type = ''int32'', offset = 0, arrsize = 0\<rparr>,
                   \<lparr>m_name = nb, m_type = ''int8'', offset = 4, arrsize = 0\<rparr>]
         \<and> Sizeof st4 sn = Some 8))"
proof (intro conjI impI)
  assume "offs < 0 \<and> AddMember st parent name type offs arr = Some (True, st')"
  then show "\<exists>s sz pad typesize.
           structs st parent = Some s \<and> getSizeof st parent 0 = Some (sz, pad)
         \<and> Sizeof st type = Some typesize
         \<and> st' = st\<lparr>structs := (structs st)(parent \<mapsto> s\<lparr>members := members s @
               [\<lparr>m_name = name, m_type = type,
                 offset = (if pad \<noteq> 0 \<and> typesize \<le> pad then wrap (sz - pad) else sz),
                 arrsize = arr\<rparr>]\<rparr>)\<rparr>"
    using AddMember_auto_offset [of offs st parent name type arr st'] by blast
next
  assume "offs < 0 \<and> AppendMember st name type offs arr = Some (True, st')"
  then show "\<exists>s sz pad typesize.
           structs st (laststruct st) = Some s \<and> getSizeof st (laststruct st) 0 = Some (sz, pad)
         \<and> Sizeof st type = Some typesize
         \<and> st' = st\<lparr>structs := (structs st)(laststruct st \<mapsto> s\<lparr>members := members s @
               [\<lparr>m_name = name, m_type = type,
                 offset = (if pad \<noteq> 0 \<and> typesize \<le> pad then wrap (sz - pad) else sz),
                 arrsize = arr\<rparr>]\<rparr>)\<rparr>"
    using AddMember_auto_offset [of offs st "laststruct st" name type arr st']
    unfolding AppendMember_def by blast
next
  assume "INT_MIN \<le> x \<and> x \<le> INT_MAX"
  then show "wrap x = x"
    by (intro wrap_id) (simp add: int32_def)
next
  assume "reachable ptr st0 \<and> \<not> isDefined st0 sn \<and> na \<noteq> nb"
  then show "\<exists>st1 st2 st3 st4.
           AddStruct ptr st0 sn 8 = (True, st1)
         \<and> AddMember st1 sn na ''int32'' (-1) 0 = Some (True, st2)
         \<and> laststruct st1 = sn
         \<and> AppendMember st1 na ''int32'' (-1) 0 = Some (True, st2)
         \<and> laststruct st2 = sn \<and> getSizeof st2 sn 0 = Some (8, 4)
         \<and> Sizeof st2 ''int64'' = Some 8 \<and> Sizeof st2 ''int8'' = Some 1
         \<and> AddMember st2 sn nb ''int64'' (-1) 0 = Some (True, st3)
         \<and> AppendMember st2 nb ''int64'' (-1) 0 = Some (True, st3)
         \<and> map_option members (structs st3 sn) =
             Some [\<lparr>m_name = na, m_type = ''int32'', offset = 0, arrsize = 0\<rparr>,
                   \<lparr>m_name = nb, m_type = ''int64'', offset = 8, arrsize = 0\<rparr>]
         \<and> Sizeof st3 sn = Some 16
         \<and> AddMember st2 sn nb ''int8'' (-1) 0 = Some (True, st4)
         \<and> AppendMember st2 nb ''int8'' (-1) 0 = Some (True, st4)
         \<and> map_option members (structs st4 sn) =
             Some [\<lparr>m_name = na, m_type = ''int32'', offset = 0, arrsize = 0\<rparr>,
                   \<lparr>m_name = nb, m_type = ''int8'', offset = 4, arrsize = 0\<rparr>]
         \<and> Sizeof st4 sn = Some 8"
    using packing_scenario [of ptr st0 sn na nb] by blast
qed

theorem auto_offset_packing_witness:
  "reachable 8 (TypeManager_new 8) \<and> \<not> isDefined (TypeManager_new 8) ''S''
   \<and> INT_MIN \<le> 8 - 4 \<and> (8::int) - 4 \<le> INT_MAX \<and> wrap (8 - 4) = 4
   \<and> (\<exists>st1 st2 st3 st4 s.
         AddStruct 8 (TypeManager_new 8) ''S'' 8 = (True, st1)
       \<and> AppendMember st1 ''a'' ''int32'' (-1) 0 = Some (True, st2)
       \<and> laststruct st2 = ''S'' \<and> structs st2 ''S'' = Some s \<and> getSizeof st2 ''S'' 0 = Some (8, 4)
       \<and> Sizeof st2 ''int64'' = Some 8 \<and> Sizeof st2 ''int8'' = Some 1
       \<and> AppendMember st2 ''b'' ''int64'' (-1) 0 = Some (True, st3)
       \<and> AddMember st2 ''S'' ''b'' ''int64'' (-1) 0 = Some (True, st3)
       \<and> st3 = st2\<lparr>structs := (structs st2)(''S'' \<mapsto> s\<lparr>members := members s @
             [\<lparr>m_name = ''b'', m_type = ''int64'', offset = 8, arrsize = 0\<rparr>]\<rparr>)\<rparr>
       \<and> Sizeof st3 ''S'' = Some 16
       \<and> AppendMember st2 ''b'' ''int8'' (-1) 0 = Some (True, st4)
       \<and> AddMember st2 ''S'' ''b'' ''int8'' (-1) 0 = Some (True, st4)
       \<and> st4 = st2\<lparr>structs := (structs st2)(''S'' \<mapsto> s\<lparr>members := members s @
             [\<lparr>m_name = ''b'', m_type = ''int8'', offset = 4, arrsize = 0\<rparr>]\<rparr>)\<rparr>
       \<and> Sizeof st4 ''S'' = Some 8)"
proof -
  have r: "reachable 8 (TypeManager_new 8)"
    by (rule r_new) simp
  have fresh: "\<not> isDefined (TypeManager_new 8) ''S''"
    by (simp add: not_isDefined_iff new_simps)
  have ne: "''a'' \<noteq> ''b''" by simp
  have rng: "INT_MIN \<le> 8 - 4" "(8::int) - 4 \<le> INT_MAX"
    by (simp_all add: INT_MIN_def INT_MAX_def)
  from auto_offset_packing [of _ _ _ _ _ _ _ "8 - 4", THEN conjunct2, THEN conjunct2,
      THEN conjunct1] rng
  have w4: "wrap (8 - 4) = 4" by simp
  from auto_offset_packing [of _ _ _ _ _ _ _ _ 8 "TypeManager_new 8" "''S''" "''a''" "''b''",
      THEN conjunct2, THEN conjunct2, THEN conjunct2] r fresh ne
  obtain st1 st2 st3 st4 where
    s1: "AddStruct 8 (TypeManager_new 8) ''S'' 8 = (True, st1)" and
    a2: "AppendMember st1 ''a'' ''int32'' (-1) 0 = Some (True, st2)" and
    l2: "laststruct st2 = ''S''" and
    g: "getSizeof st2 ''S'' 0 = Some (8, 4)" and
    t: "Sizeof st2 ''int64'' = Some 8" and t8: "Sizeof st2 ''int8'' = Some 1" and
    s3: "AddMember st2 ''S'' ''b'' ''int64'' (-1) 0 = Some (True, st3)" and
    a3: "AppendMember st2 ''b'' ''int64'' (-1) 0 = Some (True, st3)" and
    z: "Sizeof st3 ''S'' = Some 16" and
    s4: "AddMember st2 ''S'' ''b'' ''int8'' (-1) 0 = Some (True, st4)" and
    a4: "AppendMember st2 ''b'' ''int8'' (-1) 0 = Some (True, st4)" and
    z4: "Sizeof st4 ''S'' = Some 8"
    by blast
  have "\<exists>s sz pad typesize.
           structs st2 ''S'' = Some s \<and> getSizeof st2 ''S'' 0 = Some (sz, pad)
         \<and> Sizeof st2 ''int64'' = Some typesize
         \<and> st3 = st2\<lparr>structs := (structs st2)(''S'' \<mapsto> s\<lparr>members := members s @
               [\<lparr>m_name = ''b'', m_type = ''int64'',
                 offset = (if pad \<noteq> 0 \<and> typesize \<le> pad then wrap (sz - pad) else sz),
                 arrsize = 0\<rparr>]\<rparr>)\<rparr>"
    using auto_offset_packing [of "-1" st2 "''S''" "''b''" "''int64''" 0 st3, THEN conjunct1] s3
    by simp
  then obtain s where s: "structs st2 ''S'' = Some s" and
    e3: "st3 = st2\<lparr>structs := (structs st2)(''S'' \<mapsto> s\<lparr>members := members s @
             [\<lparr>m_name = ''b'', m_type = ''int64'', offset = 8, arrsize = 0\<rparr>]\<rparr>)\<rparr>"
    using g t by auto
  have "\<exists>s sz pad typesize.
           structs st2 (laststruct st2) = Some s
         \<and> getSizeof st2 (laststruct st2) 0 = Some (sz, pad)
         \<and> Sizeof st2 ''int8'' = Some typesize
         \<and> st4 = st2\<lparr>structs := (structs st2)(laststruct st2 \<mapsto> s\<lparr>members := members s @
               [\<lparr>m_name = ''b'', m_type = ''int8'',
                 offset = (if pad \<noteq> 0 \<and> typesize \<le> pad then wrap (sz - pad) else sz),
                 arrsize = 0\<rparr>]\<rparr>)\<rparr>"
    using auto_offset_packing [of "-1" st2 _ "''b''" "''int8''" 0 st4, THEN conjunct2,
        THEN conjunct1] a4
    by simp
  then have e4: "st4 = st2\<lparr>structs := (structs st2)(''S'' \<mapsto> s\<lparr>members := members s @
             [\<lparr>m_name = ''b'', m_type = ''int8'', offset = 4, arrsize = 0\<rparr>]\<rparr>)\<rparr>"
    using g t8 s w4 by (auto simp add: l2)
  from r fresh rng w4 s1 a2 l2 s g t t8 a3 s3 e3 z a4 s4 e4 z4 show ?thesis by blast
qed

text \<open>
  C4. \<^verbatim>\<open>getSizeof\<close> is a total function of the state, the name and the depth: its
  recursion is at a depth one higher and ends at depth 100. A call at a depth of 100 or
  more returns 0. In a state where no aggregate has the alignment 0 or -1, cyclic or not,
  every call returns a size (with such an alignment a call can reach a remainder that has
  no value). In every state, \<^verbatim>\<open>Sizeof\<close> of a struct on a cycle of structs, each
  holding the next as its last member, is 0. \<^verbatim>\<open>Sizeof\<close> of an aggregate on a cycle
  that runs through the last member of each struct and through any member of each union
  on it is 0 when no aggregate of the state has the alignment 0 or -1.
\<close>

theorem getSizeof_depth_cap:
  "(100 \<le> depth \<longrightarrow> getSizeof st type depth = Some (0, 0))
   \<and> (aligned st \<longrightarrow>
        (\<exists>sz pad. getSizeof st type depth = Some (sz, pad)) \<and> (\<exists>sz. Sizeof st type = Some sz))
   \<and> (struct_cycle st C \<and> n \<in> C \<longrightarrow>
        getSizeof st n depth = Some (0, 0) \<and> Sizeof st n = Some 0)
   \<and> (aligned st \<and> cycle_through st C \<and> n \<in> C \<longrightarrow>
        getSizeof st n depth = Some (0, 0) \<and> Sizeof st n = Some 0)"
proof (intro conjI impI)
  assume "100 \<le> depth"
  then show "getSizeof st type depth = Some (0, 0)" by (rule getSizeof_deep)
next
  assume al: "aligned st"
  show "\<exists>sz pad. getSizeof st type depth = Some (sz, pad)"
    by (rule getSizeof_total [OF al])
  from getSizeof_total [OF al, of type 0] show "\<exists>sz. Sizeof st type = Some sz"
    by (auto simp add: Sizeof_def)
next
  assume a: "struct_cycle st C \<and> n \<in> C"
  then have cy: "struct_cycle st C" and n: "n \<in> C"
    by simp_all
  show "getSizeof st n depth = Some (0, 0)"
    by (rule struct_cycle_zero [OF cy n])
  have "getSizeof st n 0 = Some (0, 0)"
    by (rule struct_cycle_zero [OF cy n])
  then show "Sizeof st n = Some 0" by (simp add: Sizeof_def)
next
  assume a: "aligned st \<and> cycle_through st C \<and> n \<in> C"
  then have al: "aligned st" and cy: "cycle_through st C" and n: "n \<in> C"
    by simp_all
  show "getSizeof st n depth = Some (0, 0)"
    by (rule cycle_zero [OF al cy n])
  have "getSizeof st n 0 = Some (0, 0)"
    by (rule cycle_zero [OF al cy n])
  then show "Sizeof st n = Some 0" by (simp add: Sizeof_def)
qed

theorem getSizeof_depth_cap_witness:
  "aligned ex_C1 \<and> struct_cycle ex_C1 {''C''} \<and> Sizeof ex_C1 ''C'' = Some 0
   \<and> getSizeof ex_C1 ''C'' 100 = Some (0, 0)
   \<and> \<not> aligned ex_CZ \<and> struct_cycle ex_CZ {''C''} \<and> Sizeof ex_CZ ''C'' = Some 0
   \<and> Sizeof ex_CZ ''Z'' = None
   \<and> aligned ex_AB \<and> cycle_through ex_AB {''A'', ''B''}
   \<and> Sizeof ex_AB ''A'' = Some 0 \<and> Sizeof ex_AB ''B'' = Some 0
   \<and> aligned ex_C2 \<and> (\<exists>sz. Sizeof ex_C2 ''C'' = Some sz)
   \<and> \<not> aligned ex_N \<and> Sizeof ex_N ''N'' = None"
proof -
  note T = getSizeof_depth_cap
  have a1: "aligned ex_C1" and a2: "aligned ex_AB" and a3: "aligned ex_C2"
    by (simp_all add: aligned_def ex_C1_fields ex_AB_fields ex_C2_fields)
  note n1 = not_aligned_ex_CZ and n2 = not_aligned_ex_N
  have c1: "struct_cycle ex_C1 {''C''}"
    by (simp add: struct_cycle_def ex_C1_fields new_simps)
  have c2: "cycle_through ex_AB {''A'', ''B''}"
    by (simp add: cycle_through_def ex_AB_fields new_simps)
  have c3: "struct_cycle ex_CZ {''C''}"
    by (simp add: struct_cycle_def ex_CZ_fields new_simps)
  from T [of _ ex_C1 _ "{''C''}" "''C''", THEN conjunct2, THEN conjunct2, THEN conjunct1] c1
  have 1: "Sizeof ex_C1 ''C'' = Some 0" by simp
  from T [of 100 ex_C1 "''C''", THEN conjunct1]
  have 2: "getSizeof ex_C1 ''C'' 100 = Some (0, 0)" by simp
  from T [of _ ex_AB _ "{''A'', ''B''}" "''A''", THEN conjunct2, THEN conjunct2, THEN conjunct2]
    a2 c2
  have 3: "Sizeof ex_AB ''A'' = Some 0" by simp
  from T [of _ ex_AB _ "{''A'', ''B''}" "''B''", THEN conjunct2, THEN conjunct2, THEN conjunct2]
    a2 c2
  have 4: "Sizeof ex_AB ''B'' = Some 0" by simp
  from T [of _ ex_C2 "''C''", THEN conjunct2, THEN conjunct1] a3
  have 5: "\<exists>sz. Sizeof ex_C2 ''C'' = Some sz" by simp
  from T [of _ ex_CZ _ "{''C''}" "''C''", THEN conjunct2, THEN conjunct2, THEN conjunct1] c3
  have 6: "Sizeof ex_CZ ''C'' = Some 0" by simp
  have 7: "Sizeof ex_CZ ''Z'' = None" and 8: "Sizeof ex_N ''N'' = None"
    by (simp_all add: Sizeof_def Sizeof_ex_CZ Sizeof_ex_N)
  show ?thesis using a1 c1 1 2 n1 c3 6 7 a2 c2 3 4 a3 5 n2 8 by simp
qed

text \<open>
  C4 as stated fails in \<open>ex_C2\<close>: the struct \<open>C\<close> contains a member of its own
  type, which is not its last member, and its \<^verbatim>\<open>Sizeof\<close> is 16.
\<close>

theorem cyclic_struct_nonzero_size:
  "structs ex_C2 ''C'' = Some \<lparr>isunion = False, alignment = 8, s_name = ''C'',
      members = [\<lparr>m_name = ''self'', m_type = ''C'', offset = 0, arrsize = 0\<rparr>,
                 \<lparr>m_name = ''x'', m_type = ''int32'', offset = 8, arrsize = 0\<rparr>]\<rparr>
   \<and> Sizeof ex_C2 ''C'' = Some 16"
proof -
  have a32: "getSizeof ex_C2 ''int32'' 1 = Some (4, 0)"
    by (subst getSizeof_primitive [where k = Int32])
       (simp_all add: ex_C2_fields new_simps primsize_new)
  have "getSizeof ex_C2 ''C'' 0 = Some (16, 4)"
    by (subst getSizeof_struct [where s = "\<lparr>isunion = False, alignment = 8, s_name = ''C'',
      members = [\<lparr>m_name = ''self'', m_type = ''C'', offset = 0, arrsize = 0\<rparr>,
                 \<lparr>m_name = ''x'', m_type = ''int32'', offset = 8, arrsize = 0\<rparr>]\<rparr>"])
       (simp_all add: ex_C2_fields new_simps a32 arrcount_def alignSize_def int_simps)
  then show ?thesis by (simp add: Sizeof_def ex_C2_fields)
qed

text \<open>
  C5. \<^verbatim>\<open>AddType(name, kind, bitsize)\<close> is to fail exactly when the name is defined or
  the bit size exceeds the natural width of the kind. On a new \<^verbatim>\<open>TypeManager\<close> the name
  \<open>w\<close> is free and 8 bits do not exceed the 16 bits of \<open>Uint16\<close>, yet
  \<^verbatim>\<open>AddType("w", Uint16, 8)\<close> returns false, where \<^verbatim>\<open>AddType("w", Int16, 8)\<close> returns
  true: line 209 stores the width of \<^verbatim>\<open>unsigned short\<close> under \<open>Int16\<close>, and
  \<open>Uint16\<close> is left without one.
\<close>

theorem AddType_Uint16_narrowing:
  "\<not> isDefined (TypeManager_new ptr) ''w''
   \<and> 8 \<le> natural_width ptr Uint16
   \<and> \<not> fst (AddType (TypeManager_new ptr) ''w'' Uint16 8 [])
   \<and> fst (AddType (TypeManager_new ptr) ''w'' Int16 8 [])"
proof -
  have n: "\<not> isDefined (TypeManager_new ptr) ''w''"
    by (simp add: not_isDefined_iff new_simps)
  show ?thesis
    using n by (simp add: AddType_fails_iff AddType_succeeds_iff primsize_new natural_width_def)
qed



text \<open>
  C7. The constructor leaves \<open>primitivesizes\<close> without an entry for \<open>Uint16\<close>; the spellings
  \<open>uint16_t\<close>, \<open>uint16\<close>, \<open>ushort\<close> and \<open>unsigned short\<close> have the kind \<open>Int16\<close>. In
  every state of the class the width read for \<open>Uint16\<close> is 0, so that
  \<^verbatim>\<open>AddType(name, Uint16, b)\<close> returns false for every \<open>b > 0\<close>, and with the default bit
  size (0, or any \<open>b \<le> 0\<close>) and a free name it stores a type of bit size 0, whose
  \<^verbatim>\<open>Sizeof\<close> is 0.
\<close>

theorem Uint16_has_no_width:
  "primitivesizes (TypeManager_new ptr) Uint16 = None
   \<and> primitives (TypeManager_new ptr) ''uint16_t'' = Some Int16
   \<and> primitives (TypeManager_new ptr) ''uint16'' = Some Int16
   \<and> primitives (TypeManager_new ptr) ''ushort'' = Some Int16
   \<and> primitives (TypeManager_new ptr) ''unsigned short'' = Some Int16
   \<and> (reachable ptr st \<longrightarrow>
        primsize st Uint16 = 0
      \<and> (0 < bits \<longrightarrow> \<not> fst (AddType st name Uint16 bits pto))
      \<and> (bits \<le> 0 \<and> \<not> isDefined st name \<longrightarrow>
           fst (AddType st name Uint16 bits pto)
         \<and> types (snd (AddType st name Uint16 bits pto)) name =
             Some \<lparr>t_name = name, primitive = Uint16, bitsize = 0, pointto = pto\<rparr>
         \<and> Sizeof (snd (AddType st name Uint16 bits pto)) name = Some 0))"
proof (intro conjI impI)
  assume r: "reachable ptr st"
  show w: "primsize st Uint16 = 0"
    by (rule reachable_Uint16_width [OF r])
  {
    assume "0 < bits"
    then show "\<not> fst (AddType st name Uint16 bits pto)"
      using w by (simp add: AddType_fails_iff)
  }
  assume a: "bits \<le> 0 \<and> \<not> isDefined st name"
  then have st: "AddType st name Uint16 bits pto =
           (True, (touch_primsize st Uint16)\<lparr>types := (types st)(name \<mapsto>
               \<lparr>t_name = name, primitive = Uint16, bitsize = 0, pointto = pto\<rparr>)\<rparr>)"
    using AddType_stores [of st name bits Uint16 pto] w by simp
  show "fst (AddType st name Uint16 bits pto)"
    by (simp add: st)
  show t: "types (snd (AddType st name Uint16 bits pto)) name =
             Some \<lparr>t_name = name, primitive = Uint16, bitsize = 0, pointto = pto\<rparr>"
    by (simp add: st)
  have p: "primitives (snd (AddType st name Uint16 bits pto)) name = None"
    using a by (simp add: st touch_primsize_fields not_isDefined_iff)
  show "Sizeof (snd (AddType st name Uint16 bits pto)) name = Some 0"
    by (simp add: Sizeof_alias [OF p t])
qed (simp_all add: primitives_new primitivesizes_new)

theorem Uint16_has_no_width_witness:
  "reachable 8 (TypeManager_new 8) \<and> \<not> isDefined (TypeManager_new 8) ''w''
   \<and> \<not> fst (AddType (TypeManager_new 8) ''w'' Uint16 16 [])
   \<and> \<not> fst (AddType (TypeManager_new 8) ''w'' Uint16 1 [])
   \<and> fst (AddType (TypeManager_new 8) ''w'' Uint16 0 [])
   \<and> types (snd (AddType (TypeManager_new 8) ''w'' Uint16 0 [])) ''w'' =
       Some \<lparr>t_name = ''w'', primitive = Uint16, bitsize = 0, pointto = []\<rparr>
   \<and> Sizeof (snd (AddType (TypeManager_new 8) ''w'' Uint16 0 [])) ''w'' = Some 0"
proof -
  have n: "\<not> isDefined (TypeManager_new 8) ''w''"
    by (simp add: not_isDefined_iff new_simps)
  note U = Uint16_has_no_width [of 8 "TypeManager_new 8", THEN conjunct2, THEN conjunct2,
      THEN conjunct2, THEN conjunct2, THEN conjunct2, rule_format, OF reachable_new8]
  from U [of 16 "''w''" "[]"] have 1: "\<not> fst (AddType (TypeManager_new 8) ''w'' Uint16 16 [])"
    by simp
  from U [of 1 "''w''" "[]"] have 2: "\<not> fst (AddType (TypeManager_new 8) ''w'' Uint16 1 [])"
    by simp
  from U [of 0 "''w''" "[]"] n
  have 3: "fst (AddType (TypeManager_new 8) ''w'' Uint16 0 [])
   \<and> types (snd (AddType (TypeManager_new 8) ''w'' Uint16 0 [])) ''w'' =
       Some \<lparr>t_name = ''w'', primitive = Uint16, bitsize = 0, pointto = []\<rparr>
   \<and> Sizeof (snd (AddType (TypeManager_new 8) ''w'' Uint16 0 [])) ''w'' = Some 0"
    by simp
  show ?thesis
    using reachable_new8 n 1 2 3 by simp
qed

text \<open>
  C8. For a name that is no primitive spelling, no registered type and no registered
  aggregate with a member (an undefined name, or an aggregate without members),
  \<^verbatim>\<open>Sizeof\<close> returns 0.
\<close>

theorem Sizeof_unresolved_name:
  assumes "primitives st n = None" and "types st n = None"
    and "case structs st n of None \<Rightarrow> True | Some s \<Rightarrow> members s = []"
  shows "Sizeof st n = Some 0"
proof (cases "structs st n")
  case None
  with assms show ?thesis by (simp add: Sizeof_def getSizeof_unknown)
next
  case (Some s)
  with assms show ?thesis by (simp add: Sizeof_def getSizeof_no_members)
qed

theorem Sizeof_unresolved_name_witness:
  "primitives (snd (AddStruct 8 (TypeManager_new 8) ''S'' 0)) ''S'' = None
   \<and> types (snd (AddStruct 8 (TypeManager_new 8) ''S'' 0)) ''S'' = None
   \<and> map_option members (structs (snd (AddStruct 8 (TypeManager_new 8) ''S'' 0)) ''S'') = Some []
   \<and> Sizeof (snd (AddStruct 8 (TypeManager_new 8) ''S'' 0)) ''S'' = Some 0
   \<and> structs (TypeManager_new 8) ''nosuch'' = None
   \<and> Sizeof (TypeManager_new 8) ''nosuch'' = Some 0"
proof -
  have fresh: "\<not> isDefined (TypeManager_new 8) ''S''"
    by (simp add: not_isDefined_iff new_simps)
  have a: "primitives (snd (AddStruct 8 (TypeManager_new 8) ''S'' 0)) ''S'' = None"
    and b: "types (snd (AddStruct 8 (TypeManager_new 8) ''S'' 0)) ''S'' = None"
    and c: "map_option members (structs (snd (AddStruct 8 (TypeManager_new 8) ''S'' 0)) ''S'') = Some []"
    by (simp_all add: AddStruct_fresh [OF fresh] new_simps)
  have d: "primitives (TypeManager_new 8) ''nosuch'' = None"
    and e: "types (TypeManager_new 8) ''nosuch'' = None"
    and f: "structs (TypeManager_new 8) ''nosuch'' = None"
    by (simp_all add: new_simps)
  from c have c': "case structs (snd (AddStruct 8 (TypeManager_new 8) ''S'' 0)) ''S'' of
      None \<Rightarrow> True | Some s \<Rightarrow> members s = []"
    by (auto split: option.splits)
  from f have f': "case structs (TypeManager_new 8) ''nosuch'' of
      None \<Rightarrow> True | Some s \<Rightarrow> members s = []"
    by simp
  show ?thesis
    using Sizeof_unresolved_name [OF a b c'] Sizeof_unresolved_name [OF d e f'] a b c f
    by simp
qed

text \<open>
  C9. When \<^verbatim>\<open>AddStruct\<close> or \<^verbatim>\<open>AddUnion\<close> is called with a name that is already
  defined, it returns false and the only change is that \<open>laststruct\<close> is the requested
  name; \<^verbatim>\<open>AppendMember\<close> then is \<^verbatim>\<open>AddMember\<close> on that name, and when it succeeds
  the member is appended to the aggregate that existed under the name.
\<close>

theorem failed_creation_rebinds_laststruct:
  "(isDefined st name \<longrightarrow>
      AddStruct ptr st name align = (False, st\<lparr>laststruct := name\<rparr>)
    \<and> AddUnion ptr st name align = (False, st\<lparr>laststruct := name\<rparr>)
    \<and> AppendMember (st\<lparr>laststruct := name\<rparr>) mname type offs arr =
        AddMember (st\<lparr>laststruct := name\<rparr>) name mname type offs arr
    \<and> (AppendMember (st\<lparr>laststruct := name\<rparr>) mname type offs arr = Some (True, st') \<longrightarrow>
         (\<exists>s off. structs st name = Some s
            \<and> st' = st\<lparr>laststruct := name, structs := (structs st)(name \<mapsto> s\<lparr>members := members s @
                 [\<lparr>m_name = mname, m_type = type, offset = off, arrsize = arr\<rparr>]\<rparr>)\<rparr>)))
   \<and> (isDefined st (s_name s0) \<longrightarrow>
        AddStruct_s st s0 = (False, st\<lparr>laststruct := s_name s0\<rparr>)
      \<and> AddUnion_u st s0 = (False, st\<lparr>laststruct := s_name s0\<rparr>))"
proof (intro conjI impI)
  assume "AppendMember (st\<lparr>laststruct := name\<rparr>) mname type offs arr = Some (True, st')"
  then have "AddMember (st\<lparr>laststruct := name\<rparr>) name mname type offs arr = Some (True, st')"
    by (simp add: AppendMember_def)
  from AddMember_True [OF this]
  show "\<exists>s off. structs st name = Some s
            \<and> st' = st\<lparr>laststruct := name, structs := (structs st)(name \<mapsto> s\<lparr>members := members s @
                 [\<lparr>m_name = mname, m_type = type, offset = off, arrsize = arr\<rparr>]\<rparr>)\<rparr>"
    by auto
qed (simp_all add: AddStruct_defined AddUnion_defined AddStruct_s_defined AddUnion_u_defined
      AppendMember_def)

theorem failed_creation_rebinds_laststruct_witness:
  "isDefined ex_T ''S'' \<and> laststruct ex_T = ''T''
   \<and> AddStruct 8 ex_T ''S'' 0 = (False, ex_T\<lparr>laststruct := ''S''\<rparr>)
   \<and> AddUnion 8 ex_T ''S'' 0 = (False, ex_T\<lparr>laststruct := ''S''\<rparr>)
   \<and> AppendMember (ex_T\<lparr>laststruct := ''S''\<rparr>) ''b'' ''int64'' 8 0 =
       Some (True, ex_T\<lparr>laststruct := ''S'',
         structs := (structs ex_T)(''S'' \<mapsto> \<lparr>isunion = False, alignment = 8, s_name = ''S'',
           members = [\<lparr>m_name = ''a'', m_type = ''int32'', offset = 0, arrsize = 0\<rparr>,
                      \<lparr>m_name = ''b'', m_type = ''int64'', offset = 8, arrsize = 0\<rparr>]\<rparr>)\<rparr>)
   \<and> map_option members (structs ex_T ''T'') = Some []
   \<and> AddStruct_s ex_T \<lparr>isunion = False, alignment = 1, s_name = ''S'', members = []\<rparr> =
       (False, ex_T\<lparr>laststruct := ''S''\<rparr>)
   \<and> AddUnion_u ex_T \<lparr>isunion = True, alignment = 1, s_name = ''S'', members = []\<rparr> =
       (False, ex_T\<lparr>laststruct := ''S''\<rparr>)"
proof -
  let ?S1 = "\<lparr>isunion = False, alignment = 8, s_name = ''S'',
        members = [\<lparr>m_name = ''a'', m_type = ''int32'', offset = 0, arrsize = 0\<rparr>]\<rparr>"
  have d: "isDefined ex_T ''S''"
    by (simp add: isDefined_def mapContains_def ex_T_eq ex_S1_fields)
  have l: "laststruct ex_T = ''T''" and t: "map_option members (structs ex_T ''T'') = Some []"
    and sS: "structs (ex_T\<lparr>laststruct := ''S''\<rparr>) ''S'' = Some ?S1"
    by (simp_all add: ex_T_eq ex_S1_fields)
  have d64: "isDefined (ex_T\<lparr>laststruct := ''S''\<rparr>) ''int64''"
    by (simp add: isDefined_def mapContains_def ex_T_eq ex_S1_fields new_simps)
  have am: "AddMember (ex_T\<lparr>laststruct := ''S''\<rparr>) ''S'' ''b'' ''int64'' 8 0 =
      Some (True, push_member (ex_T\<lparr>laststruct := ''S''\<rparr>) ''S'' ?S1
        \<lparr>m_name = ''b'', m_type = ''int64'', offset = 8, arrsize = 0\<rparr>)"
    by (rule AddMember_explicit [OF sS _ d64]) simp_all
  note w = failed_creation_rebinds_laststruct [of ex_T "''S''" 8 0 "''b''" "''int64''" 8 0, THEN conjunct1,
      rule_format, OF d]
  from w have a: "AddStruct 8 ex_T ''S'' 0 = (False, ex_T\<lparr>laststruct := ''S''\<rparr>)"
    and u: "AddUnion 8 ex_T ''S'' 0 = (False, ex_T\<lparr>laststruct := ''S''\<rparr>)"
    and ap: "AppendMember (ex_T\<lparr>laststruct := ''S''\<rparr>) ''b'' ''int64'' 8 0 =
        AddMember (ex_T\<lparr>laststruct := ''S''\<rparr>) ''S'' ''b'' ''int64'' 8 0"
    by simp_all
  have o: "AddStruct_s ex_T \<lparr>isunion = False, alignment = 1, s_name = ''S'', members = []\<rparr> =
       (False, ex_T\<lparr>laststruct := ''S''\<rparr>)"
    "AddUnion_u ex_T \<lparr>isunion = True, alignment = 1, s_name = ''S'', members = []\<rparr> =
       (False, ex_T\<lparr>laststruct := ''S''\<rparr>)"
    using failed_creation_rebinds_laststruct [THEN conjunct2, rule_format,
        of ex_T "\<lparr>isunion = False, alignment = 1, s_name = ''S'', members = []\<rparr>"]
      failed_creation_rebinds_laststruct [THEN conjunct2, rule_format,
        of ex_T "\<lparr>isunion = True, alignment = 1, s_name = ''S'', members = []\<rparr>"] d
    by simp_all
  show ?thesis
    using d l t a u o by (simp add: ap am push_member_def)
qed

text \<open>
  C10. \<^verbatim>\<open>AddMember(parent, member)\<close> checks the parent only: for an aggregate stored under
  \<open>parent\<close> it returns true and appends the member as given, whatever its name, type,
  offset and array count are; for any other \<open>parent\<close> it returns false and changes
  nothing. In \<open>ex_S1\<close> it appends a second member \<open>a\<close> of the undefined type \<open>nosuch\<close>
  with offset -4 and array count -1, which the other overload refuses.
\<close>

theorem AddMember_m_unvalidated:
  "(structs st parent = Some s \<longrightarrow>
      AddMember_m st parent member =
        (True, st\<lparr>structs := (structs st)(parent \<mapsto> s\<lparr>members := members s @ [member]\<rparr>)\<rparr>))
   \<and> (structs st parent = None \<longrightarrow> AddMember_m st parent member = (False, st))"
  by (simp add: AddMember_m_def push_member_def)

theorem AddMember_m_unvalidated_witness:
  "structs ex_S1 ''S'' = Some \<lparr>isunion = False, alignment = 8, s_name = ''S'',
        members = [\<lparr>m_name = ''a'', m_type = ''int32'', offset = 0, arrsize = 0\<rparr>]\<rparr>
   \<and> \<not> isDefined ex_S1 ''nosuch''
   \<and> AddMember ex_S1 ''S'' ''a'' ''nosuch'' (-4) (-1) = Some (False, ex_S1)
   \<and> AddMember_m ex_S1 ''S'' \<lparr>m_name = ''a'', m_type = ''nosuch'', offset = -4, arrsize = -1\<rparr> =
       (True, ex_S1\<lparr>structs := [''S'' \<mapsto> \<lparr>isunion = False, alignment = 8, s_name = ''S'',
          members = [\<lparr>m_name = ''a'', m_type = ''int32'', offset = 0, arrsize = 0\<rparr>,
                     \<lparr>m_name = ''a'', m_type = ''nosuch'', offset = -4, arrsize = -1\<rparr>]\<rparr>]\<rparr>)
   \<and> structs ex_S1 ''T'' = None
   \<and> AddMember_m ex_S1 ''T'' \<lparr>m_name = ''a'', m_type = ''int32'', offset = 0, arrsize = 0\<rparr> =
       (False, ex_S1)"
proof -
  have s: "structs ex_S1 ''S'' = Some \<lparr>isunion = False, alignment = 8, s_name = ''S'',
        members = [\<lparr>m_name = ''a'', m_type = ''int32'', offset = 0, arrsize = 0\<rparr>]\<rparr>"
    and t: "structs ex_S1 ''T'' = None"
    by (simp_all add: ex_S1_fields)
  have u: "\<not> isDefined ex_S1 ''nosuch''"
    by (simp add: not_isDefined_iff ex_S1_fields new_simps)
  have v: "AddMember ex_S1 ''S'' ''a'' ''nosuch'' (-4) (-1) = Some (False, ex_S1)"
    by (rule AddMember_undefined_type [OF u])
  show ?thesis
    using AddMember_m_unvalidated [of ex_S1 "''S''" _ "\<lparr>m_name = ''a'', m_type = ''nosuch'', offset = -4, arrsize = -1\<rparr>"]
      AddMember_m_unvalidated [of ex_S1 "''T''" _ "\<lparr>m_name = ''a'', m_type = ''int32'', offset = 0, arrsize = 0\<rparr>"]
      s t u v
    by (simp add: ex_S1_fields)
qed

section \<open>Further properties\<close>

text \<open>
  For every kind but \<open>Uint16\<close>, in every state of the class,
  \<^verbatim>\<open>AddType(name, kind, bitsize)\<close> returns false exactly when the name is defined or the
  bit size exceeds the natural width of the kind, and otherwise stores the type, with the
  natural width for a bit size that is not positive. With a free name, kind \<open>Int32\<close> and
  40 bits it returns false; with 16 bits it returns true and \<^verbatim>\<open>Sizeof\<close> of the alias
  is 2.
\<close>

theorem AddType_width_rule:
  "reachable ptr st \<and> prim \<noteq> Uint16 \<longrightarrow>
     ((\<not> fst (AddType st name prim bits pto)) =
        (isDefined st name \<or> natural_width ptr prim < bits))
   \<and> (fst (AddType st name prim bits pto) \<longrightarrow>
        types (snd (AddType st name prim bits pto)) name =
          Some \<lparr>t_name = name, primitive = prim,
                bitsize = (if bits \<le> 0 then natural_width ptr prim else bits), pointto = pto\<rparr>)
   \<and> (\<not> isDefined st name \<longrightarrow>
        \<not> fst (AddType st name Int32 40 pto) \<and> fst (AddType st name Int32 16 pto)
      \<and> Sizeof (snd (AddType st name Int32 16 pto)) name = Some 2)"
proof (intro impI conjI)
  assume a: "reachable ptr st \<and> prim \<noteq> Uint16"
  then have r: "reachable ptr st" and k: "prim \<noteq> Uint16" by simp_all
  show "(\<not> fst (AddType st name prim bits pto)) =
        (isDefined st name \<or> natural_width ptr prim < bits)"
    by (rule AddType_natural_width [OF r k])
  {
    assume ok: "fst (AddType st name prim bits pto)"
    then have "\<not> isDefined st name" "bits \<le> 0 \<or> bits \<le> primsize st prim"
      by (simp_all add: AddType_succeeds_iff)
    from AddType_stores [OF this]
    show "types (snd (AddType st name prim bits pto)) name =
          Some \<lparr>t_name = name, primitive = prim,
                bitsize = (if bits \<le> 0 then natural_width ptr prim else bits), pointto = pto\<rparr>"
      by (simp add: reachable_natural_width [OF r k])
  }
  assume n: "\<not> isDefined st name"
  show "\<not> fst (AddType st name Int32 40 pto)" "fst (AddType st name Int32 16 pto)"
    "Sizeof (snd (AddType st name Int32 16 pto)) name = Some 2"
    by (rule AddType_Int32_alias [OF r n])+
qed

theorem AddType_width_rule_witness:
  "reachable 8 (TypeManager_new 8) \<and> \<not> isDefined (TypeManager_new 8) ''w''
   \<and> isDefined (TypeManager_new 8) ''int''
   \<and> \<not> fst (AddType (TypeManager_new 8) ''int'' Int64 8 [])
   \<and> \<not> fst (AddType (TypeManager_new 8) ''w'' Int32 40 [])
   \<and> fst (AddType (TypeManager_new 8) ''w'' Int32 16 [])
   \<and> types (snd (AddType (TypeManager_new 8) ''w'' Int32 16 [])) ''w'' =
       Some \<lparr>t_name = ''w'', primitive = Int32, bitsize = 16, pointto = []\<rparr>
   \<and> Sizeof (snd (AddType (TypeManager_new 8) ''w'' Int32 16 [])) ''w'' = Some 2
   \<and> fst (AddType (TypeManager_new 8) ''w'' Pointer 0 ''int'')
   \<and> types (snd (AddType (TypeManager_new 8) ''w'' Pointer 0 ''int'')) ''w'' =
       Some \<lparr>t_name = ''w'', primitive = Pointer, bitsize = 64, pointto = ''int''\<rparr>"
proof -
  note r = reachable_new8
  have n: "\<not> isDefined (TypeManager_new 8) ''w''" and d: "isDefined (TypeManager_new 8) ''int''"
    by (simp_all add: isDefined_def mapContains_def new_simps)
  note W = AddType_width_rule [of 8 "TypeManager_new 8", rule_format]
  have 1: "\<not> fst (AddType (TypeManager_new 8) ''int'' Int64 8 [])"
    using W [of Int64 "''int''" 8 "[]"] r d by simp
  have 2: "\<not> fst (AddType (TypeManager_new 8) ''w'' Int32 40 [])"
    and 3: "fst (AddType (TypeManager_new 8) ''w'' Int32 16 [])"
    and 4: "Sizeof (snd (AddType (TypeManager_new 8) ''w'' Int32 16 [])) ''w'' = Some 2"
    using W [of Int32 "''w''" 16 "[]"] r n by simp_all
  have 5: "types (snd (AddType (TypeManager_new 8) ''w'' Int32 16 [])) ''w'' =
       Some \<lparr>t_name = ''w'', primitive = Int32, bitsize = 16, pointto = []\<rparr>"
    using W [of Int32 "''w''" 16 "[]"] r 3 by simp
  have 6: "fst (AddType (TypeManager_new 8) ''w'' Pointer 0 ''int'')"
    using W [of Pointer "''w''" 0 "''int''"] r n by (simp add: natural_width_def)
  have 7: "types (snd (AddType (TypeManager_new 8) ''w'' Pointer 0 ''int'')) ''w'' =
       Some \<lparr>t_name = ''w'', primitive = Pointer, bitsize = 64, pointto = ''int''\<rparr>"
    using W [of Pointer "''w''" 0 "''int''"] r 6 by (simp add: natural_width_def)
  show ?thesis using r n d 1 2 3 4 5 6 7 by simp
qed

text \<open>
  In every state of the class, \<^verbatim>\<open>Sizeof\<close> of a primitive spelling is the natural width
  of its kind in bytes.
\<close>

theorem Sizeof_primitive_spelling:
  "reachable ptr st \<and> primitives (TypeManager_new ptr) n = Some k \<longrightarrow>
     primitives st n = Some k \<and> Sizeof st n = Some (natural_width ptr k div 8)"
proof
  assume a: "reachable ptr st \<and> primitives (TypeManager_new ptr) n = Some k"
  then have r: "reachable ptr st" by simp
  from a have p: "primitives st n = Some k"
    by (simp add: reachable_primitives [OF r])
  from a have k: "k \<noteq> Uint16" by (auto dest: kinds_new)
  have w: "primsize st k = natural_width ptr k"
    by (rule reachable_natural_width [OF r k])
  have "0 \<le> natural_width ptr k"
    using reachable_ptr [OF r] by (cases k) (simp_all add: natural_width_def)
  then show "primitives st n = Some k \<and> Sizeof st n = Some (natural_width ptr k div 8)"
    using p by (simp add: Sizeof_def getSizeof_primitive w sdiv_8_nonneg)
qed

theorem Sizeof_primitive_spelling_witness:
  "reachable 8 ex_S1
   \<and> primitives (TypeManager_new 8) ''int32_t'' = Some Int32 \<and> Sizeof ex_S1 ''int32_t'' = Some 4
   \<and> primitives (TypeManager_new 8) ''uint8_t'' = Some Uint8 \<and> Sizeof ex_S1 ''uint8_t'' = Some 1
   \<and> primitives (TypeManager_new 8) ''double'' = Some Double \<and> Sizeof ex_S1 ''double'' = Some 8
   \<and> primitives (TypeManager_new 8) ''uint16_t'' = Some Int16 \<and> Sizeof ex_S1 ''uint16_t'' = Some 2
   \<and> primitives (TypeManager_new 8) ''void*'' = Some Pointer \<and> Sizeof ex_S1 ''void*'' = Some 8"
proof -
  note r = reachable_ex_S1
  have p: "primitives (TypeManager_new 8) ''int32_t'' = Some Int32"
    "primitives (TypeManager_new 8) ''uint8_t'' = Some Uint8"
    "primitives (TypeManager_new 8) ''double'' = Some Double"
    "primitives (TypeManager_new 8) ''uint16_t'' = Some Int16"
    "primitives (TypeManager_new 8) ''void*'' = Some Pointer"
    by (simp_all add: primitives_new)
  note S = Sizeof_primitive_spelling [of 8 ex_S1, rule_format, OF conjI [OF r], THEN conjunct2]
  show ?thesis
    using r p S [OF p(1)] S [OF p(2)] S [OF p(3)] S [OF p(4)] S [OF p(5)]
    by (simp add: natural_width_def)
qed

end
